(* ===== verification/Prelude.thy ===== *)
theory Prelude
  imports Complex_Main "HOL-Library.Word" "HOL-Library.Product_Lexorder"
begin

text \<open>
  Shared vocabulary of the development: the types that name the model's data
  (float64 coordinates as reals, a vertex row as a triple, a face row as a
  triple of indices, an in-memory vertex array that is either finite or all
  NaN), Python's exceptions as a datatype, the world the script runs in (the
  file system and standard output), and the generic lemmas on triples, lists
  and Python indexing that the component theories share.
\<close>

named_theorems mesh_simps "evaluation rules of the mesh model, for closed witnesses"

section \<open>Data\<close>

text \<open>
  A NumPy array of shape \<open>(n, 3)\<close> and dtype float64 is a list of rows; a
  row is a triple.  Coordinates are exact reals: IEEE rounding of the
  arithmetic is not modelled (the header of \<open>Spec2Isabelle\<close> says why).
  Product_Lexorder orders triples lexicographically, which is the order
  in which \<open>np.unique(..., axis=0)\<close> sorts rows.
\<close>

type_synonym coord = real
type_synonym 'i tri = "'i \<times> 'i \<times> 'i"
type_synonym vertex = "coord tri"

text \<open>
  The vertex array the pipeline carries: finite rows, or \<open>n\<close> rows of NaN,
  which is what \<open>(verts - center) / scale\<close> yields when \<open>scale\<close> is zero.
\<close>

datatype varray = Rows "vertex list" | NaNRows nat

text \<open>Python exceptions the script raises or lets propagate.\<close>

datatype py_error =
    FileNotFoundError string
  | ValueError string
  | IndexError
  | KeyError string
  | LoaderError string

text \<open>
  An array as stored in an \<open>.npz\<close> archive: float64 rows (finite or NaN),
  integer rows, or the 0-d object array NumPy makes of \<open>None\<close>.
\<close>

datatype npy_array = F64Rows varray | IntRows "int tri list" | ObjectNone

datatype fs_entry = Blob string | Npz "(string \<times> npy_array) list"

text \<open>What the script prints, one constructor per \<open>print\<close> of the source.\<close>

datatype msg =
    Loading string
  | Loaded nat nat
  | Normalized
  | Removed int
  | Saved string
  | Completed
  | ErrorReport py_error
  | HelpText

record world =
  files :: "string \<rightharpoonup> fs_entry"
  stdout :: "msg list"

definition print_msg :: "msg \<Rightarrow> world \<Rightarrow> world" where
  "print_msg m w = w\<lparr>stdout := stdout w @ [m]\<rparr>"

definition vlen :: "varray \<Rightarrow> nat" where
  "vlen va = (case va of Rows vs \<Rightarrow> length vs | NaNRows n \<Rightarrow> n)"

definition map_tri :: "('a \<Rightarrow> 'b) \<Rightarrow> 'a tri \<Rightarrow> 'b tri" where
  "map_tri f t = (case t of (a, b, c) \<Rightarrow> (f a, f b, f c))"

fun tri_list :: "'a tri \<Rightarrow> 'a list" where
  "tri_list (a, b, c) = [a, b, c]"

text \<open>Element-wise binary operation on two rows (NumPy broadcasting of a row).\<close>

definition zip_tri :: "('a \<Rightarrow> 'b \<Rightarrow> 'c) \<Rightarrow> 'a tri \<Rightarrow> 'b tri \<Rightarrow> 'c tri" where
  "zip_tri f s t = (case s of (a, b, c) \<Rightarrow> case t of (a', b', c') \<Rightarrow> (f a a', f b b', f c c'))"

text \<open>Column \<open>k\<close> of a row (\<open>row[k]\<close>), for \<open>k < 3\<close>.\<close>

fun axis :: "nat \<Rightarrow> 'a tri \<Rightarrow> 'a" where
  "axis 0 (a, b, c) = a"
| "axis (Suc 0) (a, b, c) = b"
| "axis (Suc (Suc k)) (a, b, c) = c"

section \<open>Python list indexing\<close>

text \<open>
  \<open>xs[i]\<close> on a Python list or a one-dimensional NumPy array: a negative index
  counts from the end, anything outside \<open>[-n, n)\<close> raises IndexError.
\<close>

definition py_index :: "'a list \<Rightarrow> int \<Rightarrow> py_error + 'a" where
  "py_index xs i =
     (let n = int (length xs); j = (if i < 0 then i + n else i)
      in if 0 \<le> j \<and> j < n then Inr (xs ! nat j) else Inl IndexError)"

text \<open>The position a valid Python index \<open>i\<close> names in a sequence of length \<open>n\<close>.\<close>

definition py_pos :: "nat \<Rightarrow> int \<Rightarrow> int" where
  "py_pos n i = (if i < 0 then i + int n else i)"

text \<open>
  An operation applied to every element, stopping at the first exception, as
  a Python loop or a NumPy vectorised operation that raises does.
\<close>

fun traverse :: "('a \<Rightarrow> 'e + 'b) \<Rightarrow> 'a list \<Rightarrow> 'e + 'b list" where
  "traverse f [] = Inr []"
| "traverse f (x # xs) =
     (case f x of Inl e \<Rightarrow> Inl e
      | Inr y \<Rightarrow> (case traverse f xs of Inl e \<Rightarrow> Inl e | Inr ys \<Rightarrow> Inr (y # ys)))"

text \<open>
  The mesh invariant of the spec (section 3): every face index is a valid
  position in the vertex array.
\<close>

definition faces_in_range :: "nat \<Rightarrow> int tri list \<Rightarrow> bool" where
  "faces_in_range n fs \<longleftrightarrow> (\<forall>t \<in> set fs. \<forall>i \<in> set (tri_list t). 0 \<le> i \<and> i < int n)"

text \<open>The position of an element in a list (\<open>list.index\<close>).\<close>

fun index_of :: "'a \<Rightarrow> 'a list \<Rightarrow> nat" where
  "index_of x [] = 0"
| "index_of x (y # ys) = (if x = y then 0 else Suc (index_of x ys))"

section \<open>Lemmas\<close>

lemma print_msg_files [simp]: "files (print_msg m w) = files w"
  by (simp add: print_msg_def)

lemma print_msg_stdout [simp]: "stdout (print_msg m w) = stdout w @ [m]"
  by (simp add: print_msg_def)

lemma vlen_simps [simp, mesh_simps]: "vlen (Rows vs) = length vs" "vlen (NaNRows n) = n"
  by (simp_all add: vlen_def)

lemma map_tri_simp [simp, mesh_simps]: "map_tri f (a, b, c) = (f a, f b, f c)"
  by (simp add: map_tri_def)

lemma map_tri_map_tri [simp]: "map_tri f (map_tri g t) = map_tri (\<lambda>x. f (g x)) t"
  by (cases t) simp

lemma map_tri_cong: "(\<And>i. i \<in> set (tri_list t) \<Longrightarrow> f i = g i) \<Longrightarrow> map_tri f t = map_tri g t"
  by (cases t) simp

lemma zip_tri_simp [simp, mesh_simps]: "zip_tri f (a, b, c) (a', b', c') = (f a a', f b b', f c c')"
  by (simp add: zip_tri_def)

lemma axis_numerals [simp, mesh_simps]: "axis 1 (a, b, c) = b" "axis 2 (a, b, c) = c"
  by (simp_all add: numeral_2_eq_2)

lemma axis_in_tri_list [simp]: "axis k t \<in> set (tri_list t)"
  by (induction k t rule: axis.induct) auto

lemma axis_map_tri [simp]: "axis k (map_tri f t) = f (axis k t)"
  by (induction k t rule: axis.induct) auto

lemma axis_zip_tri [simp]: "axis k (zip_tri f s t) = f (axis k s) (axis k t)"
  by (induction k s rule: axis.induct) (cases t; simp)+

lemma tri_eq_axis: "s = t \<longleftrightarrow> axis 0 s = axis 0 t \<and> axis 1 s = axis 1 t \<and> axis 2 s = axis 2 t"
  by (cases s, cases t) (simp add: numeral_2_eq_2)

lemma set_tri_list_map_tri [simp]: "set (tri_list (map_tri f t)) = f ` set (tri_list t)"
  by (cases t) auto

lemma py_index_nonneg [simp]:
  "0 \<le> i \<Longrightarrow> i < int (length xs) \<Longrightarrow> py_index xs i = Inr (xs ! nat i)"
  by (simp add: py_index_def)

lemma py_index_Inr:
  "py_index xs i = Inr x \<Longrightarrow>
     \<exists>k < length xs. x = xs ! k \<and> (i = int k \<or> i = int k - int (length xs))"
proof (cases "i < 0")
  case True
  assume "py_index xs i = Inr x"
  with True show ?thesis
    by (auto simp: py_index_def Let_def split: if_splits intro!: exI [of _ "nat (i + int (length xs))"])
next
  case False
  assume "py_index xs i = Inr x"
  with False show ?thesis
    by (auto simp: py_index_def Let_def split: if_splits intro!: exI [of _ "nat i"])
qed

lemma py_index_Inl:
  "py_index xs i = Inl e \<longleftrightarrow> e = IndexError \<and> (i < - int (length xs) \<or> int (length xs) \<le> i)"
  by (auto simp: py_index_def Let_def)

lemma py_index_eq:
  "py_index xs i =
     (if - int (length xs) \<le> i \<and> i < int (length xs)
      then Inr (xs ! nat (if i < 0 then i + int (length xs) else i)) else Inl IndexError)"
  by (auto simp: py_index_def Let_def)

lemma py_index_py_pos:
  "- int (length xs) \<le> i \<Longrightarrow> i < int (length xs) \<Longrightarrow> py_index xs i = Inr (xs ! nat (py_pos (length xs) i))"
  by (simp add: py_index_eq py_pos_def)

lemma py_pos_range:
  "- int n \<le> i \<Longrightarrow> i < int n \<Longrightarrow> 0 \<le> py_pos n i \<and> py_pos n i < int n"
  by (simp add: py_pos_def)

lemma py_pos_nonneg [simp]: "0 \<le> i \<Longrightarrow> py_pos n i = i"
  by (simp add: py_pos_def)

lemma traverse_Inr:
  "(\<And>x. x \<in> set xs \<Longrightarrow> f x = Inr (g x)) \<Longrightarrow> traverse f xs = Inr (map g xs)"
  by (induction xs) auto

lemma traverse_Inr_length: "traverse f xs = Inr ys \<Longrightarrow> length ys = length xs"
  by (induction xs arbitrary: ys) (auto split: sum.splits)

lemma traverse_Inl: "traverse f xs = Inl e \<Longrightarrow> \<exists>x \<in> set xs. f x = Inl e"
  by (induction xs) (auto split: sum.splits)

lemma traverse_Inl_intro: "x \<in> set xs \<Longrightarrow> f x = Inl e \<Longrightarrow> \<exists>e'. traverse f xs = Inl e'"
  by (induction xs) (auto split: sum.splits)

lemma faces_in_range_map [simp]:
  "faces_in_range n (map (map_tri f) fs) \<longleftrightarrow>
     (\<forall>t \<in> set fs. \<forall>i \<in> set (tri_list t). 0 \<le> f i \<and> f i < int n)"
  by (auto simp: faces_in_range_def)

lemma index_of_less [simp]: "x \<in> set xs \<Longrightarrow> index_of x xs < length xs"
  by (induction xs) auto

lemma nth_index_of [simp]: "x \<in> set xs \<Longrightarrow> xs ! index_of x xs = x"
  by (induction xs) auto

lemma index_of_nth [simp]: "distinct xs \<Longrightarrow> k < length xs \<Longrightarrow> index_of (xs ! k) xs = k"
  by (induction xs arbitrary: k) (auto simp: nth_Cons split: nat.splits)

end
