(* ===== verification/Loader.thy ===== *)
theory Loader
  imports Prelude
begin

text \<open>
  \<open>load_obj(path)\<close> (mixar_preprocess.py, lines 6--21): check that the path
  exists, print, parse the file with trimesh, require a \<open>vertices\<close>
  attribute, convert the vertices to float64 and the faces (when the
  object has a \<open>faces\<close> attribute) to int32, print the counts.  trimesh is
  an external library: it enters the model as a parameter \<open>parse\<close>, the
  parser interface, so every lemma here holds for any parser.  The int32
  conversion is NumPy's C cast, which wraps modulo \<open>2^32\<close>: it is the
  word conversion \<open>word_of_int\<close> into \<open>32 word\<close>, read back signed.
\<close>

section \<open>Data and operations\<close>

text \<open>
  The object \<open>trimesh.load\<close> returns, by the two attributes the script
  reads; \<open>None\<close> stands for a missing attribute (a PointCloud has no
  faces, a Scene has neither).
\<close>

record mesh_obj =
  obj_vertices :: "vertex list option"
  obj_faces :: "int tri list option"

type_synonym parser = "string \<Rightarrow> fs_entry \<Rightarrow> py_error + mesh_obj"

text \<open>\<open>np.asarray(x, dtype=np.int32)\<close> on one index.\<close>

definition int32_of :: "int \<Rightarrow> 32 word" where
  "int32_of i = word_of_int i"

definition load_obj ::
  "parser \<Rightarrow> string \<Rightarrow> world \<Rightarrow> (py_error + vertex list \<times> 32 word tri list option) \<times> world" where
  "load_obj parse path w =
     (case files w path of
        None \<Rightarrow> (Inl (FileNotFoundError (''File not found: '' @ path)), w)
      | Some f \<Rightarrow>
          (let w1 = print_msg (Loading path) w
           in case parse path f of
                Inl e \<Rightarrow> (Inl e, w1)
              | Inr mesh \<Rightarrow>
                  (case obj_vertices mesh of
                     None \<Rightarrow> (Inl (ValueError ''Loaded object has no vertices''), w1)
                   | Some verts \<Rightarrow>
                       (let faces = map_option (map (map_tri int32_of)) (obj_faces mesh)
                        in (Inr (verts, faces),
                            print_msg (Loaded (length verts)
                              (case faces of None \<Rightarrow> 0 | Some fs \<Rightarrow> length fs)) w1)))))"

lemmas loader_defs [mesh_simps] = int32_of_def load_obj_def

section \<open>Lemmas\<close>

lemma sint_int32_of_eq: "sint (int32_of i) = signed_take_bit 31 i"
  by (simp add: int32_of_def sint_sbintrunc')

lemma sint_int32_of: "- (2 ^ 31) \<le> i \<Longrightarrow> i < 2 ^ 31 \<Longrightarrow> sint (int32_of i) = i"
  by (simp add: sint_int32_of_eq signed_take_bit_int_eq_self)

lemma load_obj_files: "load_obj parse path w = (r, w') \<Longrightarrow> files w' = files w"
  by (auto simp: load_obj_def Let_def split: option.splits sum.splits)

lemma load_obj_Inr:
  "load_obj parse path w = (Inr (verts, faces), w') \<Longrightarrow>
     \<exists>f mesh. files w path = Some f \<and> parse path f = Inr mesh \<and> obj_vertices mesh = Some verts
       \<and> faces = map_option (map (map_tri int32_of)) (obj_faces mesh)"
  by (auto simp: load_obj_def Let_def split: option.splits sum.splits)

lemma load_obj_ok:
  assumes "files w path = Some f" and "parse path f = Inr mesh"
    and "obj_vertices mesh = Some vs" and "obj_faces mesh = Some fs"
  shows "load_obj parse path w =
           (Inr (vs, Some (map (map_tri int32_of) fs)),
            print_msg (Loaded (length vs) (length fs)) (print_msg (Loading path) w))"
  using assms by (simp add: load_obj_def)

lemma int32_faces_roundtrip:
  assumes "faces_in_range n fs" and "n \<le> 2 ^ 31"
  shows "map (map_tri sint) (map (map_tri int32_of) fs) = fs"
proof -
  have n: "int n \<le> 2 ^ 31"
    using assms(2) by (metis of_nat_le_iff of_nat_numeral of_nat_power)
  have idx: "sint (int32_of i) = i" if "t \<in> set fs" and "i \<in> set (tri_list t)" for t i
  proof -
    from assms(1) that have "0 \<le> i" and "i < int n"
      by (auto simp: faces_in_range_def)
    with n have "- (2 ^ 31) \<le> i" and "i < 2 ^ 31"
      by linarith+
    then show ?thesis
      by (rule sint_int32_of)
  qed
  have "map_tri sint (map_tri int32_of t) = t" if t: "t \<in> set fs" for t
  proof -
    obtain a b c where abc: "t = (a, b, c)"
      by (cases t)
    from idx [OF t] show ?thesis
      by (simp add: abc)
  qed
  then show ?thesis
    by (simp add: map_idI)
qed

text \<open>
  The int32 cast wraps: a face index in \<open>[2^31, 2^32)\<close> becomes the
  negative index \<open>i - 2^32\<close>.
\<close>

lemma sint_int32_of_wrap:
  assumes "2 ^ 31 \<le> i" and "i < 2 ^ 32"
  shows "sint (int32_of i) = i - 2 ^ 32"
proof -
  note lo = assms(1) and hi = assms(2)
  define r where "r = i - 2 ^ 31"
  have i: "i = r + 2 ^ 31"
    by (simp add: r_def)
  have "r div 2 ^ 31 = 0"
    using lo hi by (simp add: r_def)
  then have "(r + 2 ^ 31) div 2 ^ 31 = 1"
    by (simp add: div_add_self2)
  then have "i div 2 ^ 31 = 1"
    by (simp add: i)
  then have b: "bit i 31"
    by (simp add: bit_iff_odd)
  have t: "take_bit 32 i = i"
    using lo hi by (simp add: take_bit_int_eq_self)
  show ?thesis
    using b t by (simp add: sint_int32_of_eq signed_take_bit_eq_take_bit_minus)
qed

text \<open>
  A valid index of an array of fewer than \<open>2^32\<close> rows, cast to int32, is
  still a valid Python index of that array, naming the row \<open>i\<close> below
  \<open>2^31\<close> and the row \<open>i + n - 2^32\<close> from \<open>2^31\<close> on.
\<close>

lemma int32_py_pos:
  assumes "0 \<le> i" and "i < int n" and "int n < 2 ^ 32"
  shows "- int n \<le> sint (int32_of i) \<and> sint (int32_of i) < int n
    \<and> py_pos n (sint (int32_of i)) = (if i < 2 ^ 31 then i else i + int n - 2 ^ 32)"
proof (cases "i < 2 ^ 31")
  case True
  then have "sint (int32_of i) = i"
    using assms(1) by (intro sint_int32_of) simp_all
  with True assms(1,2) show ?thesis
    by simp
next
  case False
  then have "sint (int32_of i) = i - 2 ^ 32"
    using assms(2,3) by (intro sint_int32_of_wrap) simp_all
  with False assms(2,3) show ?thesis
    by (simp add: py_pos_def)
qed

section \<open>Properties of loading\<close>

text \<open>
  C14. A path that does not exist raises FileNotFoundError before anything
  is printed or parsed.
\<close>

theorem load_obj_missing:
  assumes "files w path = None"
  shows "load_obj parse path w = (Inl (FileNotFoundError (''File not found: '' @ path)), w)"
  using assms by (simp add: load_obj_def)

theorem load_obj_missing_witness:
  "load_obj (\<lambda>_ _. Inl (LoaderError ''unused'')) ''airboat.obj'' \<lparr>files = Map.empty, stdout = []\<rparr> =
     (Inl (FileNotFoundError ''File not found: airboat.obj''), \<lparr>files = Map.empty, stdout = []\<rparr>)"
proof -
  have h: "files \<lparr>files = Map.empty, stdout = []\<rparr> ''airboat.obj'' = None" by simp
  show ?thesis
    using load_obj_missing [OF h, of "\<lambda>_ _. Inl (LoaderError ''unused'')"] by simp
qed

text \<open>
  C15. An object without a \<open>vertices\<close> attribute raises ValueError after
  the loading message.
\<close>

theorem load_obj_no_vertices:
  assumes "files w path = Some f" and "parse path f = Inr mesh" and "obj_vertices mesh = None"
  shows "load_obj parse path w = (Inl (ValueError ''Loaded object has no vertices''), print_msg (Loading path) w)"
  using assms by (simp add: load_obj_def)

theorem load_obj_no_vertices_witness:
  "load_obj (\<lambda>_ _. Inr \<lparr>obj_vertices = None, obj_faces = None\<rparr>) ''scene.glb''
     \<lparr>files = [''scene.glb'' \<mapsto> Blob ''glTF''], stdout = []\<rparr> =
   (Inl (ValueError ''Loaded object has no vertices''),
    \<lparr>files = [''scene.glb'' \<mapsto> Blob ''glTF''], stdout = [Loading ''scene.glb'']\<rparr>)"
proof -
  have h1: "files \<lparr>files = [''scene.glb'' \<mapsto> Blob ''glTF''], stdout = []\<rparr> ''scene.glb'' = Some (Blob ''glTF'')"
    by simp
  have h2: "(\<lambda>_ _. Inr \<lparr>obj_vertices = None, obj_faces = None\<rparr>) ''scene.glb'' (Blob ''glTF'') =
      (Inr \<lparr>obj_vertices = None, obj_faces = None\<rparr> :: py_error + mesh_obj)"
    by simp
  have h3: "obj_vertices \<lparr>obj_vertices = None, obj_faces = None\<rparr> = None" by simp
  show ?thesis
    using load_obj_no_vertices [OF h1 h2 h3] by (simp add: print_msg_def)
qed

text \<open>
  C16. For a parsed mesh with at most \<open>2^31\<close> vertices whose faces index
  its vertices, loading succeeds, prints both counts, and the int32 faces
  read back signed are exactly the parsed faces: the mesh invariant holds
  after loading.
\<close>

theorem load_obj_faces_in_range:
  assumes "files w path = Some f" and "parse path f = Inr mesh"
    and "obj_vertices mesh = Some vs" and "obj_faces mesh = Some fs"
    and "faces_in_range (length vs) fs" and "length vs \<le> 2 ^ 31"
  shows "\<exists>fs'. load_obj parse path w =
       (Inr (vs, Some fs'), print_msg (Loaded (length vs) (length fs)) (print_msg (Loading path) w))
     \<and> map (map_tri sint) fs' = fs"
  using assms int32_faces_roundtrip [OF assms(5,6)] by (simp add: load_obj_def)

theorem load_obj_faces_in_range_witness:
  "\<exists>fs'. load_obj (\<lambda>_ _. Inr \<lparr>obj_vertices = Some [(0, 0, 0), (1, 0, 0), (0, 1, 0)], obj_faces = Some [(0, 1, 2)]\<rparr>)
       ''tri.obj'' \<lparr>files = [''tri.obj'' \<mapsto> Blob ''f 1 2 3''], stdout = []\<rparr> =
     (Inr ([(0, 0, 0), (1, 0, 0), (0, 1, 0)], Some fs'),
      \<lparr>files = [''tri.obj'' \<mapsto> Blob ''f 1 2 3''], stdout = [Loading ''tri.obj'', Loaded 3 1]\<rparr>)
   \<and> map (map_tri sint) fs' = [(0, 1, 2)]"
proof -
  let ?m = "\<lparr>obj_vertices = Some [(0, 0, 0), (1, 0, 0), (0, 1, 0)], obj_faces = Some [(0, 1, 2)]\<rparr>"
  have h1: "files \<lparr>files = [''tri.obj'' \<mapsto> Blob ''f 1 2 3''], stdout = []\<rparr> ''tri.obj'' = Some (Blob ''f 1 2 3'')"
    by simp
  have h2: "(\<lambda>_ _. Inr ?m) ''tri.obj'' (Blob ''f 1 2 3'') = (Inr ?m :: py_error + mesh_obj)" by simp
  have h3: "obj_vertices ?m = Some [(0, 0, 0), (1, 0, 0), (0, 1, 0)]" by simp
  have h4: "obj_faces ?m = Some [(0, 1, 2)]" by simp
  have h5: "faces_in_range (length [(0, 0, 0), (1, 0, 0), (0, 1, 0) :: vertex]) [(0, 1, 2)]"
    by (simp add: faces_in_range_def)
  have h6: "length [(0, 0, 0), (1, 0, 0), (0, 1, 0) :: vertex] \<le> 2 ^ 31" by simp
  show ?thesis
    using load_obj_faces_in_range [OF h1 h2 h3 h4 h5 h6] by (simp add: print_msg_def numeral_3_eq_3)
qed

end
