(* ===== verification/Normalizer.thy ===== *)
theory Normalizer
  imports Prelude
begin

text \<open>
  \<open>normalize_vertices(verts)\<close> (mixar_preprocess.py, lines 24--36): reject
  a missing or empty array, take the per-axis minimum and maximum, the
  midpoint of the bounding box as centre and its largest extent as scale,
  and return \<open>(verts - center) / scale\<close>.  Next to the code's operations
  stands the bounding box as the spec describes it (\<open>axis_min\<close>,
  \<open>axis_max\<close>, \<open>extent\<close>, \<open>max_extent\<close>); the lemmas show that NumPy's
  reductions compute it, that the result is centred with largest extent 1
  and each axis keeps its extent relative to the largest, and that a zero
  extent gives NaN rows instead of an error.
\<close>

section \<open>Operations\<close>

text \<open>\<open>np.min(verts, axis=0)\<close> and \<open>np.max(verts, axis=0)\<close>: reductions over the rows.\<close>

definition np_min_axis0 :: "vertex list \<Rightarrow> vertex" where
  "np_min_axis0 vs = fold (\<lambda>u m. zip_tri min m u) (tl vs) (hd vs)"

definition np_max_axis0 :: "vertex list \<Rightarrow> vertex" where
  "np_max_axis0 vs = fold (\<lambda>u m. zip_tri max m u) (tl vs) (hd vs)"

text \<open>\<open>np.max\<close> of a row of three values.\<close>

definition np_max_row :: "real tri \<Rightarrow> real" where
  "np_max_row t = max (max (axis 0 t) (axis 1 t)) (axis 2 t)"

text \<open>
  \<open>(verts - center) / scale\<close> on the differences already taken.  NumPy
  does not raise on a zero divisor; where \<open>scale\<close> is zero every difference
  is zero (\<open>zero_scale_zero_differences\<close>), so every entry is \<open>0/0\<close>, NaN.
\<close>

definition divide_rows :: "vertex list \<Rightarrow> real \<Rightarrow> varray" where
  "divide_rows ds scale =
     (if scale = 0 then NaNRows (length ds) else Rows (map (map_tri (\<lambda>x. x / scale)) ds))"

definition bbox_center :: "vertex list \<Rightarrow> vertex" where
  "bbox_center vs = map_tri (\<lambda>x. x / 2) (zip_tri (+) (np_min_axis0 vs) (np_max_axis0 vs))"

definition bbox_scale :: "vertex list \<Rightarrow> real" where
  "bbox_scale vs = np_max_row (zip_tri (-) (np_max_axis0 vs) (np_min_axis0 vs))"

definition normalize_vertices :: "vertex list option \<Rightarrow> world \<Rightarrow> (py_error + varray) \<times> world" where
  "normalize_vertices verts w =
     (case verts of
        None \<Rightarrow> (Inl (ValueError ''No vertices to normalize''), w)
      | Some vs \<Rightarrow>
          if length vs = 0 then (Inl (ValueError ''No vertices to normalize''), w)
          else
            (let center = bbox_center vs;
                 scale = bbox_scale vs;
                 normalized = divide_rows (map (\<lambda>v. zip_tri (-) v center) vs) scale
             in (Inr normalized, print_msg Normalized w)))"

section \<open>The bounding box as the spec states it\<close>

definition axis_min :: "vertex list \<Rightarrow> nat \<Rightarrow> real" where
  "axis_min vs k = Min (axis k ` set vs)"

definition axis_max :: "vertex list \<Rightarrow> nat \<Rightarrow> real" where
  "axis_max vs k = Max (axis k ` set vs)"

definition extent :: "vertex list \<Rightarrow> nat \<Rightarrow> real" where
  "extent vs k = axis_max vs k - axis_min vs k"

definition max_extent :: "vertex list \<Rightarrow> real" where
  "max_extent vs = max (max (extent vs 0) (extent vs 1)) (extent vs 2)"

lemmas normalizer_defs [mesh_simps] =
  np_min_axis0_def np_max_axis0_def np_max_row_def divide_rows_def bbox_center_def
  bbox_scale_def normalize_vertices_def

section \<open>NumPy's reductions compute the bounding box\<close>

lemma fold_zip_tri_axis:
  "axis k (fold (\<lambda>u m. zip_tri f m u) vs v) = fold (\<lambda>x m. f m x) (map (axis k) vs) (axis k v)"
  by (induction vs arbitrary: v) auto

lemma np_min_axis0_axis:
  assumes "vs \<noteq> []"
  shows "axis k (np_min_axis0 vs) = axis_min vs k"
proof -
  obtain v us where vs: "vs = v # us"
    using assms by (cases vs) auto
  have "(\<lambda>x m. min m x) = (min :: real \<Rightarrow> real \<Rightarrow> real)"
    by (auto simp: fun_eq_iff min.commute)
  then show ?thesis
    by (simp add: vs np_min_axis0_def axis_min_def fold_zip_tri_axis Min.set_eq_fold [symmetric])
qed

lemma np_max_axis0_axis:
  assumes "vs \<noteq> []"
  shows "axis k (np_max_axis0 vs) = axis_max vs k"
proof -
  obtain v us where vs: "vs = v # us"
    using assms by (cases vs) auto
  have "(\<lambda>x m. max m x) = (max :: real \<Rightarrow> real \<Rightarrow> real)"
    by (auto simp: fun_eq_iff max.commute)
  then show ?thesis
    by (simp add: vs np_max_axis0_def axis_max_def fold_zip_tri_axis Max.set_eq_fold [symmetric])
qed

lemma bbox_center_axis:
  "vs \<noteq> [] \<Longrightarrow> axis k (bbox_center vs) = (axis_min vs k + axis_max vs k) / 2"
  by (simp add: bbox_center_def np_min_axis0_axis np_max_axis0_axis)

lemma bbox_scale_eq: "vs \<noteq> [] \<Longrightarrow> bbox_scale vs = max_extent vs"
  by (simp add: bbox_scale_def np_max_row_def max_extent_def extent_def
      np_min_axis0_axis np_max_axis0_axis)

lemma axis_min_le: "v \<in> set vs \<Longrightarrow> axis_min vs k \<le> axis k v"
  by (simp add: axis_min_def)

lemma axis_max_ge: "v \<in> set vs \<Longrightarrow> axis k v \<le> axis_max vs k"
  by (simp add: axis_max_def)

lemma extent_nonneg: "vs \<noteq> [] \<Longrightarrow> 0 \<le> extent vs k"
  using axis_min_le [of "hd vs" vs k] axis_max_ge [of "hd vs" vs k] by (simp add: extent_def)

lemma axis_Suc_Suc: "axis (Suc (Suc k)) t = axis 2 t"
  by (cases t) (simp add: numeral_2_eq_2)

lemma extent_le_max_extent: "extent vs k \<le> max_extent vs"
proof (cases k)
  case (Suc j)
  then show ?thesis
    by (cases j) (auto simp: max_extent_def extent_def axis_min_def axis_max_def axis_Suc_Suc)
qed (simp add: max_extent_def)

lemma normalize_vertices_Some:
  "vs \<noteq> [] \<Longrightarrow> normalize_vertices (Some vs) w =
     (Inr (divide_rows (map (\<lambda>v. zip_tri (-) v (bbox_center vs)) vs) (max_extent vs)),
      print_msg Normalized w)"
  by (simp add: normalize_vertices_def bbox_scale_eq)

lemma normalize_vertices_files: "normalize_vertices verts w = (r, w') \<Longrightarrow> files w' = files w"
  by (auto simp: normalize_vertices_def Let_def split: option.splits if_splits)

lemma max_extent_single: "set vs = {v} \<Longrightarrow> max_extent vs = 0"
  by (simp add: max_extent_def extent_def axis_min_def axis_max_def)

lemma normalize_vertices_flat:
  "vs \<noteq> [] \<Longrightarrow> max_extent vs = 0 \<Longrightarrow>
     normalize_vertices (Some vs) w = (Inr (NaNRows (length vs)), print_msg Normalized w)"
  by (simp add: normalize_vertices_Some divide_rows_def)

section \<open>The normalised rows\<close>

lemma axis_image_rescaled:
  "axis k ` set (map (\<lambda>v. map_tri (\<lambda>x. x / s) (zip_tri (-) v c)) vs) =
     (\<lambda>x. (x - axis k c) / s) ` (axis k ` set vs)"
  by (auto simp: image_image)

lemma mono_rescale: "0 < s \<Longrightarrow> mono (\<lambda>x :: real. (x - c) / s)"
  by (auto intro!: monoI divide_right_mono)

lemma rescaled_axis_min:
  assumes "vs \<noteq> []" and "0 < s"
  shows "axis_min (map (\<lambda>v. map_tri (\<lambda>x. x / s) (zip_tri (-) v c)) vs) k = (axis_min vs k - axis k c) / s"
  unfolding axis_min_def axis_image_rescaled
  using mono_Min_commute [OF mono_rescale [OF assms(2), where c = "axis k c"], where A = "axis k ` set vs"] assms(1)
  by simp

lemma rescaled_axis_max:
  assumes "vs \<noteq> []" and "0 < s"
  shows "axis_max (map (\<lambda>v. map_tri (\<lambda>x. x / s) (zip_tri (-) v c)) vs) k = (axis_max vs k - axis k c) / s"
  unfolding axis_max_def axis_image_rescaled
  using mono_Max_commute [OF mono_rescale [OF assms(2), where c = "axis k c"], where A = "axis k ` set vs"] assms(1)
  by simp

text \<open>
  The rows \<open>normalize_vertices\<close> returns when the bounding box is not flat,
  and their bounding box: centred on the origin, each extent divided by
  the largest.
\<close>

lemma normalize_vertices_Rows:
  assumes "vs \<noteq> []" and "0 < max_extent vs"
  shows "normalize_vertices (Some vs) w =
     (Inr (Rows (map (\<lambda>v. map_tri (\<lambda>x. x / max_extent vs) (zip_tri (-) v (bbox_center vs))) vs)),
      print_msg Normalized w)"
  using assms by (simp add: normalize_vertices_Some divide_rows_def)

lemma normalized_box:
  assumes "vs \<noteq> []" and "0 < max_extent vs"
  defines "out \<equiv> map (\<lambda>v. map_tri (\<lambda>x. x / max_extent vs) (zip_tri (-) v (bbox_center vs))) vs"
  shows "axis_min out k = - extent vs k / (2 * max_extent vs)"
    and "axis_max out k = extent vs k / (2 * max_extent vs)"
proof -
  have c: "axis k (bbox_center vs) = (axis_min vs k + axis_max vs k) / 2"
    using assms(1) by (rule bbox_center_axis)
  have "axis_min out k = (axis_min vs k - (axis_min vs k + axis_max vs k) / 2) / max_extent vs"
    using rescaled_axis_min [OF assms(1,2)] by (simp add: out_def c)
  also have "\<dots> = - extent vs k / (2 * max_extent vs)"
    by (simp add: extent_def field_simps)
  finally show "axis_min out k = - extent vs k / (2 * max_extent vs)" .
  have "axis_max out k = (axis_max vs k - (axis_min vs k + axis_max vs k) / 2) / max_extent vs"
    using rescaled_axis_max [OF assms(1,2)] by (simp add: out_def c)
  also have "\<dots> = extent vs k / (2 * max_extent vs)"
    by (simp add: extent_def field_simps)
  finally show "axis_max out k = extent vs k / (2 * max_extent vs)" .
qed

lemma normalized_unit_box:
  assumes "vs \<noteq> []" and "0 < max_extent vs"
  defines "out \<equiv> map (\<lambda>v. map_tri (\<lambda>x. x / max_extent vs) (zip_tri (-) v (bbox_center vs))) vs"
  shows "axis_min out k + axis_max out k = 0" and "max_extent out = 1"
proof -
  note box = normalized_box [OF assms(1,2)]
  show "axis_min out k + axis_max out k = 0"
    by (simp add: out_def box)
  define s where "s = max_extent vs"
  have s: "0 < s"
    using assms(2) by (simp add: s_def)
  have "extent out j = extent vs j / s" for j
    using s by (simp add: extent_def out_def box s_def field_simps)
  then have "max_extent out = max (max (extent vs 0 / s) (extent vs 1 / s)) (extent vs 2 / s)"
    by (simp add: max_extent_def)
  also have "\<dots> = max_extent vs / s"
    using s by (simp add: max_extent_def max_divide_distrib_right)
  finally show "max_extent out = 1"
    using s by (simp add: s_def)
qed

lemma rows_in_box:
  "u \<in> set vs \<Longrightarrow> axis_min vs k \<le> axis k u \<and> axis k u \<le> axis_max vs k"
  by (simp add: axis_min_le axis_max_ge)

lemma zero_extent_axis:
  assumes "vs \<noteq> []" and "max_extent vs = 0" and "u \<in> set vs"
  shows "axis k u = axis_min vs k" and "axis k u = axis_max vs k"
proof -
  have "extent vs k \<le> 0"
    using extent_le_max_extent [of vs k] assms(2) by simp
  with extent_nonneg [OF assms(1), of k] have "axis_max vs k = axis_min vs k"
    by (simp add: extent_def)
  with rows_in_box [OF assms(3), of k]
  show "axis k u = axis_min vs k" and "axis k u = axis_max vs k"
    by linarith+
qed

section \<open>Properties of normalisation\<close>

text \<open>
  C9. For a non-empty array whose bounding box is not a single point, the
  result has the same number of rows, its bounding box is centred on the
  origin on every axis, and its largest extent is 1.
\<close>

theorem normalize_vertices_unit_box:
  assumes "vs \<noteq> []" and "0 < max_extent vs"
  shows "\<exists>out. normalize_vertices (Some vs) w = (Inr (Rows out), print_msg Normalized w)
     \<and> length out = length vs \<and> (\<forall>k. axis_min out k + axis_max out k = 0) \<and> max_extent out = 1"
  using normalize_vertices_Rows [OF assms] normalized_unit_box [OF assms] by auto

theorem normalize_vertices_unit_box_witness:
  "\<exists>out. normalize_vertices (Some [(0, 0, 0), (2, 1, 0)]) \<lparr>files = Map.empty, stdout = []\<rparr> =
      (Inr (Rows out), \<lparr>files = Map.empty, stdout = [Normalized]\<rparr>)
    \<and> length out = 2 \<and> axis_min out 0 + axis_max out 0 = 0 \<and> max_extent out = 1"
proof -
  have h1: "[(0, 0, 0), (2, 1, 0) :: vertex] \<noteq> []" by simp
  have h2: "0 < max_extent [(0, 0, 0), (2, 1, 0)]"
    by (simp add: max_extent_def extent_def axis_min_def axis_max_def)
  show ?thesis
    using normalize_vertices_unit_box [OF h1 h2, of "\<lparr>files = Map.empty, stdout = []\<rparr>"]
    by (auto simp: print_msg_def)
qed

text \<open>
  C10. A mesh whose vertices all coincide is not rejected: the scale is 0,
  NumPy divides \<open>0/0\<close>, and normalisation reports success with an array
  of NaN rows.  The spec requires a DegenerateMesh error here.
\<close>

theorem normalize_vertices_degenerate:
  assumes "set vs = {v}"
  shows "normalize_vertices (Some vs) w = (Inr (NaNRows (length vs)), print_msg Normalized w)"
proof -
  have "vs \<noteq> []"
    using assms by auto
  then show ?thesis
    using max_extent_single [OF assms] by (rule normalize_vertices_flat)
qed

theorem normalize_vertices_degenerate_witness:
  "normalize_vertices (Some [(3, 1, 2), (3, 1, 2)]) \<lparr>files = Map.empty, stdout = []\<rparr> =
     (Inr (NaNRows 2), \<lparr>files = Map.empty, stdout = [Normalized]\<rparr>)"
proof -
  have h: "set [(3, 1, 2), (3, 1, 2) :: vertex] = {(3, 1, 2)}" by simp
  show ?thesis
    using normalize_vertices_degenerate [OF h, of "\<lparr>files = Map.empty, stdout = []\<rparr>"]
    by (simp add: print_msg_def)
qed

text \<open>
  C11. When the scale is 0, \<open>verts - center\<close> is zero in every entry: the
  division the code then performs is \<open>0/0\<close> everywhere, which is why the
  model's result in that case is all NaN and never an infinity.
\<close>

theorem zero_scale_zero_differences:
  assumes "vs \<noteq> []" and "bbox_scale vs = 0" and "u \<in> set vs"
  shows "zip_tri (-) u (bbox_center vs) = (0, 0, 0)"
proof -
  have z: "max_extent vs = 0"
    using assms(2) bbox_scale_eq [OF assms(1)] by simp
  have "axis k u - axis k (bbox_center vs) = 0" for k
    using zero_extent_axis [OF assms(1) z assms(3), of k] bbox_center_axis [OF assms(1), of k]
    by simp
  then show ?thesis
    by (simp add: tri_eq_axis)
qed

theorem zero_scale_zero_differences_witness:
  "bbox_scale [(3, 1, 2), (3, 1, 2)] = 0 \<and> zip_tri (-) (3, 1, 2) (bbox_center [(3, 1, 2), (3, 1, 2)]) = (0, 0, 0)"
proof -
  have h1: "[(3, 1, 2), (3, 1, 2) :: vertex] \<noteq> []" by simp
  have h2: "bbox_scale [(3, 1, 2), (3, 1, 2)] = 0"
    by (simp add: bbox_scale_def np_min_axis0_def np_max_axis0_def np_max_row_def)
  have h3: "((3, 1, 2) :: vertex) \<in> set [(3, 1, 2), (3, 1, 2)]" by simp
  show ?thesis
    using h2 zero_scale_zero_differences [OF h1 h2 h3] by simp
qed

text \<open>
  C12. A missing or empty vertex array raises ValueError before anything
  is printed.
\<close>

theorem normalize_vertices_empty:
  assumes "verts = None \<or> verts = Some []"
  shows "normalize_vertices verts w = (Inl (ValueError ''No vertices to normalize''), w)"
  using assms by (auto simp: normalize_vertices_def)

theorem normalize_vertices_empty_witness:
  "normalize_vertices (Some []) \<lparr>files = Map.empty, stdout = []\<rparr> =
     (Inl (ValueError ''No vertices to normalize''), \<lparr>files = Map.empty, stdout = []\<rparr>)"
proof -
  have h: "Some [] = None \<or> Some ([] :: vertex list) = Some []" by simp
  show ?thesis
    using normalize_vertices_empty [OF h] .
qed

text \<open>
  C13. NumPy's reductions \<open>np.min(verts, axis=0)\<close>, \<open>np.max(verts, axis=0)\<close>
  and \<open>np.max(max_vals - min_vals)\<close> compute the bounding box of the spec:
  per-axis minimum and maximum over all rows and the largest extent.
\<close>

theorem np_reductions_bbox:
  assumes "vs \<noteq> []"
  shows "np_min_axis0 vs = (axis_min vs 0, axis_min vs 1, axis_min vs 2)
    \<and> np_max_axis0 vs = (axis_max vs 0, axis_max vs 1, axis_max vs 2)
    \<and> bbox_scale vs = max_extent vs"
  using assms by (simp add: tri_eq_axis np_min_axis0_axis np_max_axis0_axis bbox_scale_eq)

theorem np_reductions_bbox_witness:
  "np_min_axis0 [(0, 5, 1), (2, -1, 1)] = (axis_min [(0, 5, 1), (2, -1, 1)] 0,
      axis_min [(0, 5, 1), (2, -1, 1)] 1, axis_min [(0, 5, 1), (2, -1, 1)] 2)
   \<and> np_min_axis0 [(0, 5, 1), (2, -1, 1)] = (0, -1, 1)
   \<and> bbox_scale [(0, 5, 1), (2, -1, 1)] = 6"
proof -
  have h: "[(0, 5, 1), (2, -1, 1) :: vertex] \<noteq> []" by simp
  have e: "np_min_axis0 [(0, 5, 1), (2, -1, 1)] = (0, -1, 1)"
    by (simp add: np_min_axis0_def)
  have s: "bbox_scale [(0, 5, 1), (2, -1, 1)] = 6"
    by (simp add: bbox_scale_def np_min_axis0_def np_max_axis0_def np_max_row_def)
  show ?thesis
    using np_reductions_bbox [OF h] e s by simp
qed

end
