(* ===== verification/Rounding.thy ===== *)
theory Rounding
  imports Prelude
begin

text \<open>
  \<open>np.round(verts, 6)\<close> (mixar_preprocess.py, line 41), the quantisation that
  decides which vertices are duplicates.  NumPy rounds a float array to \<open>k\<close>
  decimals as \<open>rint(x * 10**k) / 10**k\<close>, where \<open>rint\<close> rounds half to even.
  The lemmas show that rounding is idempotent, monotone and moves a value
  by at most half a unit in the last kept decimal.
\<close>

section \<open>Round half to even\<close>

definition rint :: "real \<Rightarrow> int" where
  "rint x =
     (let f = \<lfloor>x\<rfloor>; d = x - of_int f
      in if d < 1/2 then f else if 1/2 < d then f + 1 else if even f then f else f + 1)"

definition round_dec :: "nat \<Rightarrow> real \<Rightarrow> real" where
  "round_dec k x = of_int (rint (x * 10 ^ k)) / 10 ^ k"

definition np_round :: "nat \<Rightarrow> vertex list \<Rightarrow> vertex list" where
  "np_round k vs = map (map_tri (round_dec k)) vs"

abbreviation round6 :: "real \<Rightarrow> real" where
  "round6 \<equiv> round_dec 6"

lemmas rounding_defs [mesh_simps] = rint_def round_dec_def np_round_def

section \<open>Properties of rint\<close>

lemma rint_cases: "rint x = \<lfloor>x\<rfloor> \<or> rint x = \<lfloor>x\<rfloor> + 1"
  by (simp add: rint_def Let_def)

lemma rint_bounds: "x - 1/2 \<le> of_int (rint x) \<and> of_int (rint x) \<le> x + 1/2"
proof -
  have fl: "of_int \<lfloor>x\<rfloor> \<le> x" "x < of_int \<lfloor>x\<rfloor> + 1"
    by linarith+
  then show ?thesis
    unfolding rint_def Let_def by (simp split: if_split; linarith)
qed

lemma rint_of_int [simp]: "rint (of_int k) = k"
  by (simp add: rint_def)

lemma rint_mono:
  assumes "x \<le> y"
  shows "rint x \<le> rint y"
proof (rule ccontr)
  assume "\<not> rint x \<le> rint y"
  then have "of_int (rint y) + 1 \<le> (of_int (rint x) :: real)"
    by linarith
  moreover have "x - 1/2 \<le> of_int (rint x)" "of_int (rint x) \<le> x + 1/2"
    "y - 1/2 \<le> of_int (rint y)" "of_int (rint y) \<le> y + 1/2"
    using rint_bounds [of x] rint_bounds [of y] by auto
  ultimately have "x = y"
    using assms by linarith
  then have "rint x = rint y" by simp
  with \<open>\<not> rint x \<le> rint y\<close> show False by simp
qed

section \<open>Rounding to k decimals\<close>

lemma round_dec_idem [simp]: "round_dec k (round_dec k x) = round_dec k x"
  by (simp add: round_dec_def)

lemma round_dec_mono: "x \<le> y \<Longrightarrow> round_dec k x \<le> round_dec k y"
  by (simp add: round_dec_def divide_right_mono rint_mono)

lemma round_dec_error: "\<bar>round_dec k x - x\<bar> \<le> 1 / (2 * 10 ^ k)"
proof -
  let ?y = "x * 10 ^ k"
  have e: "\<bar>of_int (rint ?y) - ?y\<bar> \<le> 1/2"
    using rint_bounds [of ?y] by linarith
  have p: "(0::real) < 10 ^ k"
    by simp
  have "round_dec k x - x = (of_int (rint ?y) - ?y) / 10 ^ k"
    using p by (simp add: round_dec_def diff_divide_distrib)
  then have "\<bar>round_dec k x - x\<bar> = \<bar>of_int (rint ?y) - ?y\<bar> / 10 ^ k"
    by (simp add: abs_divide)
  also have "\<dots> \<le> (1/2) / 10 ^ k"
    using e p by (rule divide_right_mono [OF _ less_imp_le])
  finally show ?thesis
    by simp
qed

lemma round_dec_of_int: "round_dec k (of_int m / 10 ^ k) = of_int m / 10 ^ k"
  by (simp add: round_dec_def)

lemma np_round_length [simp]: "length (np_round k vs) = length vs"
  by (simp add: np_round_def)

lemma np_round_nth [simp]: "i < length vs \<Longrightarrow> np_round k vs ! i = map_tri (round_dec k) (vs ! i)"
  by (simp add: np_round_def)

lemma np_round_idem [simp]: "np_round k (np_round k vs) = np_round k vs"
proof -
  have "map_tri (round_dec k) (map_tri (round_dec k) v) = map_tri (round_dec k) v" for v :: vertex
    by (cases v) simp
  then show ?thesis
    by (simp add: np_round_def)
qed

end
