(* ===== verification/Unique.thy ===== *)
theory Unique
  imports Prelude "HOL-Library.Multiset"
begin

text \<open>
  \<open>np.unique(a, axis=0, return_inverse=True)\<close> (mixar_preprocess.py, line 41)
  on the rounded rows.  Two definitions of it:
  \<^item> \<open>unique_ref\<close>, its documented contract: the sorted list of distinct rows,
    and for every input row the position of that row in it;
  \<^item> \<open>np_unique_inverse\<close>, the algorithm NumPy runs (\<open>_unique1d\<close>): argsort the
    rows, mark each sorted row that differs from its predecessor, keep the
    marked rows, number the rows by the running count of marks and scatter
    those numbers back through the sort permutation.
  \<open>unique_with_perm_eq_ref\<close> proves the algorithm equal to the contract for
  every sorting permutation (NumPy sorts with an unstable quicksort, so
  which permutation it picks among equal rows is not fixed), and the
  contract lemmas give what the deduplicator relies on.  For rows that
  all compare equal (the all-NaN rows of a degenerate mesh) the
  permutation matters, and the last section follows NumPy's quicksort on
  equal keys (\<open>nan_argsort\<close>) to the inverse it yields.
\<close>

section \<open>The contract\<close>

definition unique_ref :: "'a::linorder list \<Rightarrow> 'a list \<times> int list" where
  "unique_ref ar =
     (let u = sorted_list_of_set (set ar) in (u, map (\<lambda>x. int (index_of x u)) ar))"

section \<open>NumPy's algorithm\<close>

text \<open>\<open>perm = ar.argsort()\<close>: a stable sort of the row indices stands in for it.\<close>

definition argsort :: "'a::linorder list \<Rightarrow> nat list" where
  "argsort ar = sort_key (\<lambda>i. ar ! i) [0..<length ar]"

text \<open>\<open>mask[:1] = True; mask[1:] = aux[1:] != aux[:-1]\<close>\<close>

definition change_mask :: "'a list \<Rightarrow> bool list" where
  "change_mask aux =
     (case aux of [] \<Rightarrow> [] | _ \<Rightarrow> True # map2 (\<lambda>a b. a \<noteq> b) (tl aux) (butlast aux))"

text \<open>\<open>np.cumsum\<close> of a boolean array, as integers.\<close>

fun cumsum_from :: "int \<Rightarrow> bool list \<Rightarrow> int list" where
  "cumsum_from s [] = []"
| "cumsum_from s (b # bs) = (let s' = s + (if b then 1 else 0) in s' # cumsum_from s' bs)"

text \<open>\<open>inv_idx[perm] = imask\<close>: fancy assignment, the last write to an index wins.\<close>

definition scatter :: "nat list \<Rightarrow> 'b list \<Rightarrow> 'b list \<Rightarrow> 'b list" where
  "scatter ps vs arr = fold (\<lambda>(p, v) a. a[p := v]) (zip ps vs) arr"

definition unique_with_perm :: "nat list \<Rightarrow> 'a::linorder list \<Rightarrow> 'a list \<times> int list" where
  "unique_with_perm perm ar =
     (let aux = map (\<lambda>i. ar ! i) perm;
          mask = change_mask aux;
          uniq = map fst (filter snd (zip aux mask));
          imask = map (\<lambda>c. c - 1) (cumsum_from 0 mask);
          inv = scatter perm imask (replicate (length ar) 0)
      in (uniq, inv))"

definition np_unique_inverse :: "'a::linorder list \<Rightarrow> 'a list \<times> int list" where
  "np_unique_inverse ar = unique_with_perm (argsort ar) ar"

section \<open>NumPy's argsort on rows that all compare equal\<close>

text \<open>
  NaN rows: NumPy compares two NaN coordinates as equal when sorting, so
  \<open>argsort(kind='quicksort')\<close> of \<open>n\<close> all-NaN rows is what NumPy's generic
  \<open>npy_aquicksort\<close> (\<open>numpy/_core/src/npysort/quicksort.cpp\<close>) does when
  every comparison yields 0.  The three compare-and-swap steps of the
  median-of-three choice then never swap, the two scanning \<open>do\<close>-loops
  advance \<open>i\<close> and \<open>j\<close> by one step each, and the final insertion sort
  moves nothing; what remains is below.  \<open>INTP_SWAP\<close> on the index array:
\<close>

definition npy_swap :: "nat \<Rightarrow> nat \<Rightarrow> 'a list \<Rightarrow> 'a list" where
  "npy_swap i j t = t[i := t ! j, j := t ! i]"

text \<open>
  The partition loop \<open>for (;;) { ++pi; --pj; if (pi >= pj) break;
  INTP_SWAP(*pi, *pj); }\<close>; it returns the array and the final \<open>i\<close>.
\<close>

function aq_partition :: "nat list \<Rightarrow> nat \<Rightarrow> nat \<Rightarrow> nat list \<times> nat" where
  "aq_partition t i j =
     (let i' = Suc i; j' = j - 1
      in if j' \<le> i' then (t, i') else aq_partition (npy_swap i' j' t) i' j')"
  by pat_completeness auto
termination
  by (relation "measure (\<lambda>(t, i, j). j - i)") auto

declare aq_partition.simps [simp del]

text \<open>
  The outer loop: partition while the interval \<open>[pl, pr]\<close> is longer than
  \<open>SMALL_QUICKSORT + 1 = 16\<close> rows, continue with the smaller part and push
  the larger one, and pop the next interval when the current one is done.
  The depth limit \<open>cdepth = 2 * msb(n)\<close>, after which NumPy switches to
  heapsort, is not reached: every partition halves the interval.
\<close>

function aq_loop :: "nat list \<Rightarrow> nat \<Rightarrow> nat \<Rightarrow> (nat \<times> nat) list \<Rightarrow> nat list" where
  "aq_loop t pl pr st =
     (if 15 < pr - pl then
        (let pm = pl + (pr - pl) div 2;
             t1 = npy_swap pm (pr - 1) t;
             r = aq_partition t1 pl (pr - 1);
             i = snd r;
             t3 = npy_swap i (pr - 1) (fst r)
         in if i - pl < pr - i then aq_loop t3 pl (i - 1) ((Suc i, pr) # st)
            else aq_loop t3 (Suc i) pr ((pl, i - 1) # st))
      else (case st of [] \<Rightarrow> t | (l, r) # st' \<Rightarrow> aq_loop t l r st'))"
  by pat_completeness auto
termination
proof (relation "measure (\<lambda>(t, pl, pr, st). 2 * (Suc pr - pl) + 1 + sum_list (map (\<lambda>(l, r). 2 * (Suc r - l) + 1) st))")
  have part: "i < snd (aq_partition t i j) \<and> snd (aq_partition t i j) \<le> j" if "i < j" for t i j
    using that
  proof (induction t i j rule: aq_partition.induct)
    case (1 t i j)
    show ?case
    proof (cases "j - 1 \<le> Suc i")
      case True
      with "1.prems" show ?thesis
        unfolding aq_partition.simps [of t i j] by (simp add: Let_def)
    next
      case False
      then have "Suc i < snd (aq_partition (npy_swap (Suc i) (j - 1) t) (Suc i) (j - 1))
          \<and> snd (aq_partition (npy_swap (Suc i) (j - 1) t) (Suc i) (j - 1)) \<le> j - 1"
        using "1.IH" [OF refl refl] by simp
      with False show ?thesis
        unfolding aq_partition.simps [of t i j] by (simp add: Let_def) linarith
    qed
  qed
  show "wf (measure (\<lambda>(t, pl, pr, st). 2 * (Suc pr - pl) + 1 + sum_list (map (\<lambda>(l, r). 2 * (Suc r - l) + 1) st)))"
    by simp
  fix t t1 t3 :: "nat list" and pl pr pm i :: nat and st :: "(nat \<times> nat) list" and r :: "nat list \<times> nat"
  assume "15 < pr - pl" and "i = snd r" and "r = aq_partition t1 pl (pr - 1)"
  then have "pl < i" and "i \<le> pr - 1"
    using part [of pl "pr - 1" t1] by simp_all
  then show "((t3, pl, i - 1, (Suc i, pr) # st), t, pl, pr, st) \<in> measure (\<lambda>(t, pl, pr, st). 2 * (Suc pr - pl) + 1 + sum_list (map (\<lambda>(l, r). 2 * (Suc r - l) + 1) st))"
    and "((t3, Suc i, pr, (pl, i - 1) # st), t, pl, pr, st) \<in> measure (\<lambda>(t, pl, pr, st). 2 * (Suc pr - pl) + 1 + sum_list (map (\<lambda>(l, r). 2 * (Suc r - l) + 1) st))"
    by simp_all
qed auto

declare aq_loop.simps [simp del]

text \<open>\<open>ar.argsort(kind='quicksort')\<close> of \<open>n\<close> rows that all compare equal.\<close>

definition nan_argsort :: "nat \<Rightarrow> nat list" where
  "nan_argsort n = (if n = 0 then [] else aq_loop [0..<n] 0 (n - 1) [])"

text \<open>
  The inverse \<open>_unique1d\<close> returns for \<open>n\<close> NaN rows: no row equals its
  predecessor, so every row is marked and kept, \<open>imask\<close> numbers them
  \<open>0, ..., n - 1\<close>, and \<open>inv_idx[perm] = imask\<close> inverts the sort
  permutation.
\<close>

definition nan_unique_inverse :: "nat \<Rightarrow> int list" where
  "nan_unique_inverse n =
     (let perm = nan_argsort n;
          imask = map (\<lambda>c. c - 1) (cumsum_from 0 (replicate n True))
      in scatter perm imask (replicate n 0))"

text \<open>
  Proof device: the comparisons \<open>aux[1:] != aux[:-1]\<close> as a recursion that
  carries the previous row.
\<close>

fun neq_prev :: "'a \<Rightarrow> 'a list \<Rightarrow> bool list" where
  "neq_prev p [] = []"
| "neq_prev p (x # xs) = (x \<noteq> p) # neq_prev x xs"

lemmas unique_defs [mesh_simps] =
  unique_ref_def argsort_def change_mask_def scatter_def unique_with_perm_def np_unique_inverse_def

section \<open>Lemmas on the algorithm's steps\<close>

lemma map2_neq_butlast: "map2 (\<lambda>a b. a \<noteq> b) xs (butlast (p # xs)) = neq_prev p xs"
  by (induction xs arbitrary: p) auto

lemma change_mask_Cons: "change_mask (p # xs) = True # neq_prev p xs"
  by (simp add: change_mask_def map2_neq_butlast [of xs p, simplified])

lemma marked_rows_remdups_adj:
  "p # map fst (filter snd (zip xs (neq_prev p xs))) = remdups_adj (p # xs)"
proof (induction xs arbitrary: p)
  case Nil
  then show ?case by simp
next
  case (Cons y ys)
  let ?R = "map fst (filter snd (zip ys (neq_prev y ys)))"
  have IH: "remdups_adj (y # ys) = y # ?R"
    using Cons.IH [of y] by simp
  show ?case
  proof (cases "y = p")
    case True
    then show ?thesis using IH by simp
  next
    case False
    then show ?thesis using IH by simp
  qed
qed

lemma mask_rows_remdups_adj: "map fst (filter snd (zip aux (change_mask aux))) = remdups_adj aux"
proof (cases aux)
  case Nil
  then show ?thesis by (simp add: change_mask_def)
next
  case (Cons p xs)
  then show ?thesis
    by (simp add: change_mask_Cons marked_rows_remdups_adj)
qed

lemma sorted_remdups_adj_strict: "sorted xs \<Longrightarrow> sorted_wrt (<) (remdups_adj xs)"
proof (induction xs rule: remdups_adj.induct)
  case (3 x y xs)
  show ?case
  proof (cases "x = y")
    case True
    with "3.prems" "3.IH"(1) show ?thesis by simp
  next
    case False
    with "3.prems" have "x < y" "\<forall>z \<in> set xs. x < z"
      by (auto intro: order.strict_trans2)
    with False "3.prems" "3.IH"(2) show ?thesis by auto
  qed
qed simp_all

lemma sorted_remdups_adj_eq: "sorted xs \<Longrightarrow> remdups_adj xs = sorted_list_of_set (set xs)"
  using sorted_remdups_adj_strict [of xs]
  by (metis remdups_adj_set sorted_distinct_set_unique sorted_list_of_set.distinct_sorted_key_list_of_set
        sorted_list_of_set.set_sorted_key_list_of_set sorted_list_of_set.sorted_sorted_key_list_of_set
        strict_sorted_iff finite_set)

lemma index_of_remdups_adj_head [simp]: "index_of p (remdups_adj (p # xs)) = 0"
  by (metis index_of.simps(2) remdups_adj_Cons_alt)

text \<open>
  The running count of marks, started at \<open>s\<close> after the row \<open>p\<close>, numbers
  each later row by its position among the distinct rows of a sorted list.
\<close>

lemma cumsum_neq_prev:
  "sorted (p # xs) \<Longrightarrow>
     cumsum_from s (neq_prev p xs) = map (\<lambda>x. s + int (index_of x (remdups_adj (p # xs)))) xs"
proof (induction xs arbitrary: p s)
  case Nil
  then show ?case by simp
next
  case (Cons y ys)
  have sorted_y: "sorted (y # ys)" and py: "p \<le> y" and ge: "\<forall>z \<in> set ys. y \<le> z"
    using Cons.prems by auto
  show ?case
  proof (cases "y = p")
    case True
    with Cons.IH [OF sorted_y, of s] show ?thesis by simp
  next
    case False
    then have "p < y" using py by simp
    then have "\<forall>z \<in> set ys. z \<noteq> p" using ge by force
    with False Cons.IH [OF sorted_y, of "s + 1"] show ?thesis
      by (simp add: Let_def algebra_simps)
  qed
qed

lemma group_numbers:
  "sorted aux \<Longrightarrow>
     map (\<lambda>c. c - 1) (cumsum_from 0 (change_mask aux)) =
     map (\<lambda>x. int (index_of x (remdups_adj aux))) aux"
proof (cases aux)
  case Nil
  then show ?thesis by (simp add: change_mask_def)
next
  case (Cons p xs)
  moreover assume "sorted aux"
  ultimately show ?thesis
    by (simp add: change_mask_Cons cumsum_neq_prev [of p xs 1])
qed

lemma fold_update_length: "length (fold (\<lambda>(p, v) a. a[p := v]) pvs arr) = length arr"
  by (induction pvs arbitrary: arr) auto

lemma scatter_length [simp]: "length (scatter ps vs arr) = length arr"
  by (simp add: scatter_def fold_update_length)

lemma scatter_Cons: "scatter (p # ps) (v # vs) arr = scatter ps vs (arr[p := v])"
  by (simp add: scatter_def)

lemma scatter_nth:
  "distinct ps \<Longrightarrow> length ps = length vs \<Longrightarrow> i < length arr \<Longrightarrow>
     scatter ps vs arr ! i = (if i \<in> set ps then vs ! index_of i ps else arr ! i)"
proof (induction ps arbitrary: vs arr)
  case Nil
  then show ?case by (simp add: scatter_def)
next
  case (Cons p ps)
  then obtain v vs' where vs: "vs = v # vs'" by (cases vs) auto
  have p_new: "p \<notin> set ps" and len: "length ps = length vs'" and i: "i < length arr"
    using Cons.prems by (auto simp: vs)
  have IH: "scatter ps vs' (arr[p := v]) ! i =
      (if i \<in> set ps then vs' ! index_of i ps else arr[p := v] ! i)"
    using Cons.prems Cons.IH [of vs' "arr[p := v]"] by (simp add: vs)
  show ?case
  proof (cases "i = p")
    case True
    with p_new i IH show ?thesis by (simp add: scatter_Cons vs)
  next
    case False
    with IH show ?thesis by (simp add: scatter_Cons vs)
  qed
qed

section \<open>The algorithm meets the contract\<close>

lemma perm_facts:
  assumes "mset perm = mset [0..<n]"
  shows "distinct perm" "set perm = {0..<n}" "length perm = n"
  using mset_eq_setD [OF assms] mset_eq_imp_distinct_iff [OF assms] mset_eq_length [OF assms]
  by auto

lemma set_map_nth_perm:
  "set perm = {0..<length ar} \<Longrightarrow> set (map (\<lambda>i. ar ! i) perm) = set ar"
  by (auto simp: in_set_conv_nth)

text \<open>
  Both results of the algorithm, for any permutation that sorts the rows:
  the kept rows are the sorted distinct rows, and the scattered numbers are
  the positions of the rows among them.
\<close>

lemma unique_with_perm_parts:
  assumes perm: "mset perm = mset [0..<length ar]"
    and sorted: "sorted (map (\<lambda>i. ar ! i) perm)"
  defines "u \<equiv> sorted_list_of_set (set ar)"
  shows "fst (unique_with_perm perm ar) = u"
    and "snd (unique_with_perm perm ar) = map (\<lambda>x. int (index_of x u)) ar"
proof -
  let ?aux = "map (\<lambda>i. ar ! i) perm"
  let ?num = "\<lambda>x. int (index_of x u)"
  have dist: "distinct perm" and setp: "set perm = {0..<length ar}"
    and lenp: "length perm = length ar"
    using perm_facts [OF perm] by auto
  have u_eq: "remdups_adj ?aux = u"
    using sorted_remdups_adj_eq [OF sorted] set_map_nth_perm [OF setp] by (simp add: u_def)
  show "fst (unique_with_perm perm ar) = u"
    using mask_rows_remdups_adj [of ?aux] u_eq by (simp add: unique_with_perm_def Let_def)
  have imask: "map (\<lambda>c. c - 1) (cumsum_from 0 (change_mask ?aux)) = map ?num ?aux"
    using group_numbers [OF sorted] u_eq by simp
  have inv: "scatter perm (map ?num ?aux) (replicate (length ar) 0) = map ?num ar"
  proof (rule nth_equalityI)
    show "length (scatter perm (map ?num ?aux) (replicate (length ar) 0)) = length (map ?num ar)"
      by simp
  next
    fix i
    assume "i < length (scatter perm (map ?num ?aux) (replicate (length ar) 0))"
    then have i: "i < length ar" by simp
    with setp have mem: "i \<in> set perm" by simp
    then have k: "index_of i perm < length perm" "perm ! index_of i perm = i"
      by simp_all
    show "scatter perm (map ?num ?aux) (replicate (length ar) 0) ! i = map ?num ar ! i"
      using scatter_nth [OF dist, where vs = "map ?num ?aux" and arr = "replicate (length ar) 0"] i mem k lenp
      by simp
  qed
  show "snd (unique_with_perm perm ar) = map ?num ar"
    using imask inv by (simp add: unique_with_perm_def Let_def)
qed

text \<open>
  C1. NumPy's sort-and-mark implementation of \<open>np.unique(..., axis=0,
  return_inverse=True)\<close> returns exactly the contract's result, whichever
  permutation its quicksort chooses among equal rows.
\<close>

theorem unique_with_perm_eq_ref:
  assumes "mset perm = mset [0..<length ar]"
    and "sorted (map (\<lambda>i. ar ! i) perm)"
  shows "unique_with_perm perm ar = unique_ref ar"
  using unique_with_perm_parts [OF assms] by (simp add: unique_ref_def Let_def prod_eq_iff)

text \<open>
  A concrete run with a sorting permutation that is not the stable one: the
  third row is placed before the first, as a quicksort may do.
\<close>

theorem unique_with_perm_eq_ref_witness:
  "mset [1, 2, 0] = mset [0..<length [(1, 0, 0), (0, 0, 0), (1, 0, 0) :: vertex]]
   \<and> sorted (map (\<lambda>i. [(1, 0, 0), (0, 0, 0), (1, 0, 0) :: vertex] ! i) [1, 2, 0])
   \<and> unique_with_perm [1, 2, 0] [(1, 0, 0), (0, 0, 0), (1, 0, 0) :: vertex] =
       ([(0, 0, 0), (1, 0, 0)], [1, 0, 1])"
proof -
  have h1: "mset [1, 2, 0] = mset [0..<length [(1, 0, 0), (0, 0, 0), (1, 0, 0) :: vertex]]"
    by (simp add: upt_rec)
  have h2: "sorted (map (\<lambda>i. [(1, 0, 0), (0, 0, 0), (1, 0, 0) :: vertex] ! i) [1, 2, 0])"
    by simp
  have "unique_ref [(1, 0, 0), (0, 0, 0), (1, 0, 0) :: vertex] = ([(0, 0, 0), (1, 0, 0)], [1, 0, 1])"
    by code_simp
  then show ?thesis
    using unique_with_perm_eq_ref [OF h1 h2] h1 h2 by simp
qed

lemma argsort_perm: "mset (argsort ar) = mset [0..<length ar]"
  by (simp add: argsort_def)

lemma argsort_sorted: "sorted (map (\<lambda>i. ar ! i) (argsort ar))"
  by (simp add: argsort_def)

lemma np_unique_inverse_eq_ref: "np_unique_inverse ar = unique_ref ar"
  using unique_with_perm_parts [OF argsort_perm [of ar] argsort_sorted [of ar]]
  by (simp add: np_unique_inverse_def unique_ref_def Let_def prod_eq_iff)

section \<open>What the contract promises\<close>

lemma unique_ref_fst: "fst (unique_ref ar) = sorted_list_of_set (set ar)"
  by (simp add: unique_ref_def Let_def)

lemma unique_ref_snd:
  "snd (unique_ref ar) = map (\<lambda>x. int (index_of x (sorted_list_of_set (set ar)))) ar"
  by (simp add: unique_ref_def Let_def)

lemma unique_rows_strict: "sorted_wrt (<) (fst (unique_ref ar))"
  by (simp add: unique_ref_fst)

lemma unique_rows_set [simp]: "set (fst (unique_ref ar)) = set ar"
  by (simp add: unique_ref_fst)

lemma unique_rows_length: "length (fst (unique_ref ar)) \<le> length ar"
  by (simp add: unique_ref_fst card_length)

lemma unique_inverse_length [simp]: "length (snd (unique_ref ar)) = length ar"
  by (simp add: unique_ref_snd)

lemma unique_inverse_nth:
  assumes "i < length ar"
  shows "0 \<le> snd (unique_ref ar) ! i"
    and "snd (unique_ref ar) ! i < int (length (fst (unique_ref ar)))"
    and "fst (unique_ref ar) ! nat (snd (unique_ref ar) ! i) = ar ! i"
proof -
  let ?u = "sorted_list_of_set (set ar)"
  have x: "ar ! i \<in> set ?u"
    using assms by simp
  show "0 \<le> snd (unique_ref ar) ! i"
    using assms by (simp add: unique_ref_snd)
  show "snd (unique_ref ar) ! i < int (length (fst (unique_ref ar)))"
    using assms index_of_less [OF x] by (simp add: unique_ref_fst unique_ref_snd del: length_sorted_list_of_set)
  show "fst (unique_ref ar) ! nat (snd (unique_ref ar) ! i) = ar ! i"
    using assms x by (simp add: unique_ref_fst unique_ref_snd del: set_sorted_list_of_set)
qed

lemmas unique_contract = unique_rows_strict unique_rows_set unique_rows_length
  unique_inverse_length unique_inverse_nth

section \<open>NaN rows\<close>

lemma nan_argsort_small:
  assumes "n \<le> 16"
  shows "nan_argsort n = [0..<n]"
proof -
  have "\<not> 15 < n - 1 - 0"
    using assms by simp
  then have "aq_loop [0..<n] 0 (n - 1) [] = [0..<n]"
    by (subst aq_loop.simps) (simp only: if_False list.case)
  then show ?thesis
    by (simp add: nan_argsort_def)
qed

lemma cumsum_from_True: "cumsum_from s (replicate n True) = map (\<lambda>k. s + 1 + int k) [0..<n]"
proof (induction n arbitrary: s)
  case (Suc n)
  then show ?case
    by (simp add: upt_conv_Cons map_Suc_upt [symmetric] del: upt_Suc)
qed simp

lemma nan_unique_inverse_length [simp]: "length (nan_unique_inverse n) = n"
  by (simp add: nan_unique_inverse_def)

text \<open>
  Up to 16 rows NumPy's quicksort is a plain insertion sort, which keeps
  rows that compare equal in place: the inverse of NaN rows is the identity.
\<close>

lemma nan_unique_inverse_small:
  assumes "n \<le> 16"
  shows "nan_unique_inverse n = map int [0..<n]"
proof -
  have imask: "map (\<lambda>c. c - 1) (cumsum_from 0 (replicate n True)) = map int [0..<n]"
    by (simp add: cumsum_from_True)
  have inv: "nan_unique_inverse n = scatter [0..<n] (map int [0..<n]) (replicate n 0)"
    unfolding nan_unique_inverse_def Let_def imask nan_argsort_small [OF assms] ..
  show ?thesis
  proof (rule nth_equalityI)
    show "length (nan_unique_inverse n) = length (map int [0..<n])"
      by simp
    fix k
    assume "k < length (nan_unique_inverse n)"
    then have k: "k < n"
      by simp
    have "index_of k [0..<n] = k"
      using k index_of_nth [of "[0..<n]" k] by simp
    with k show "nan_unique_inverse n ! k = map int [0..<n] ! k"
      unfolding inv by (simp add: scatter_nth)
  qed
qed

end
