(* ===== verification/Dedup.thy ===== *)
theory Dedup
  imports Rounding Unique
begin

text \<open>
  \<open>remove_duplicate_vertices(verts, faces)\<close> (mixar_preprocess.py, lines
  39--45): round every coordinate to 6 decimals, take the distinct rounded
  rows with \<open>np.unique\<close> (theory \<open>Unique\<close>), rewrite the faces through the
  inverse with NumPy fancy indexing \<open>inverse_indices[faces]\<close> (negative
  indices count from the end, any other index out of range raises
  IndexError), print the number of rows removed.  The lemmas give the
  result on every branch and show that a face read through the new vertex
  array yields the rounded vertices the old face named.
\<close>

section \<open>Operations\<close>

text \<open>\<open>np.round(verts, 6)\<close> on the pipeline's array; NaN stays NaN.\<close>

definition round_rows :: "nat \<Rightarrow> varray \<Rightarrow> varray" where
  "round_rows k va = (case va of Rows vs \<Rightarrow> Rows (np_round k vs) | NaNRows n \<Rightarrow> NaNRows n)"

text \<open>
  \<open>np.unique(..., axis=0, return_inverse=True)\<close> on the pipeline's array.
  NaN rows never compare equal, so each is its own unique row and the
  unique array is again \<open>n\<close> NaN rows; NumPy's sort compares them as
  equal, and the inverse is the inverse of the permutation its quicksort
  produces on equal keys (\<open>nan_unique_inverse\<close>, theory \<open>Unique\<close>): the
  identity up to 16 rows, a shuffle above.
\<close>

definition unique_rows :: "varray \<Rightarrow> varray \<times> int list" where
  "unique_rows va =
     (case va of
        Rows vs \<Rightarrow> (case np_unique_inverse vs of (u, ix) \<Rightarrow> (Rows u, ix))
      | NaNRows n \<Rightarrow> (NaNRows n, nan_unique_inverse n))"

text \<open>One face row of \<open>inverse_indices[faces]\<close>; the int32 index is read signed.\<close>

definition take_tri :: "int list \<Rightarrow> 32 word tri \<Rightarrow> py_error + int tri" where
  "take_tri ix t =
     (case t of (a, b, c) \<Rightarrow>
        (case py_index ix (sint a) of Inl e \<Rightarrow> Inl e | Inr a' \<Rightarrow>
         case py_index ix (sint b) of Inl e \<Rightarrow> Inl e | Inr b' \<Rightarrow>
         case py_index ix (sint c) of Inl e \<Rightarrow> Inl e | Inr c' \<Rightarrow> Inr (a', b', c')))"

text \<open>\<open>inverse_indices[faces] if faces is not None else None\<close>\<close>

definition take_faces :: "int list \<Rightarrow> 32 word tri list option \<Rightarrow> py_error + int tri list option" where
  "take_faces ix faces =
     (case faces of
        None \<Rightarrow> Inr None
      | Some fs \<Rightarrow> (case traverse (take_tri ix) fs of Inl e \<Rightarrow> Inl e | Inr fs' \<Rightarrow> Inr (Some fs')))"

definition remove_duplicate_vertices ::
  "varray \<Rightarrow> 32 word tri list option \<Rightarrow> world \<Rightarrow> (py_error + varray \<times> int tri list option) \<times> world" where
  "remove_duplicate_vertices verts faces w =
     (case unique_rows (round_rows 6 verts) of (unique_verts, inverse_indices) \<Rightarrow>
        (case take_faces inverse_indices faces of
           Inl e \<Rightarrow> (Inl e, w)
         | Inr updated_faces \<Rightarrow>
             (let removed = int (vlen verts) - int (vlen unique_verts)
              in (Inr (unique_verts, updated_faces), print_msg (Removed removed) w))))"

lemmas dedup_defs [mesh_simps] =
  round_rows_def unique_rows_def take_tri_def take_faces_def remove_duplicate_vertices_def

section \<open>Lemmas\<close>

lemma unique_rows_Rows:
  "unique_rows (Rows vs) = (Rows (sorted_list_of_set (set vs)), snd (unique_ref vs))"
  by (simp add: unique_rows_def np_unique_inverse_eq_ref unique_ref_fst [symmetric] split: prod.split)

lemma take_tri_in_range:
  "\<forall>i \<in> set (tri_list t). 0 \<le> sint i \<and> sint i < int (length ix) \<Longrightarrow>
     take_tri ix t = Inr (map_tri (\<lambda>i. ix ! nat (sint i)) t)"
  by (cases t) (simp add: take_tri_def)

lemma take_tri_out_of_range:
  "\<exists>i \<in> set (tri_list t). sint i < - int (length ix) \<or> int (length ix) \<le> sint i \<Longrightarrow>
     take_tri ix t = Inl IndexError"
  by (cases t) (auto simp: take_tri_def py_index_eq split: sum.split)

lemma take_tri_Inl: "take_tri ix t = Inl e \<Longrightarrow> e = IndexError"
  by (cases t) (auto simp: take_tri_def py_index_eq split: sum.splits if_splits)

lemma take_faces_in_range:
  "faces_in_range (length ix) (map (map_tri sint) fs) \<Longrightarrow>
     take_faces ix (Some fs) = Inr (Some (map (map_tri (\<lambda>i. ix ! nat (sint i))) fs))"
  by (simp add: take_faces_def faces_in_range_def traverse_Inr take_tri_in_range)

lemma take_faces_Inl: "take_faces ix faces = Inl e \<Longrightarrow> e = IndexError"
  by (auto simp: take_faces_def split: option.splits sum.splits dest!: traverse_Inl take_tri_Inl)

lemma dedup_inverse:
  assumes "k < length vs"
  shows "0 \<le> snd (unique_ref (np_round 6 vs)) ! k"
    and "snd (unique_ref (np_round 6 vs)) ! k < int (length (sorted_list_of_set (set (np_round 6 vs))))"
    and "sorted_list_of_set (set (np_round 6 vs)) ! nat (snd (unique_ref (np_round 6 vs)) ! k) =
           np_round 6 vs ! k"
  using unique_inverse_nth [of k "np_round 6 vs"] assms by (simp_all add: unique_ref_fst)

lemma remove_duplicate_vertices_Rows:
  "remove_duplicate_vertices (Rows vs) faces w =
     (case take_faces (snd (unique_ref (np_round 6 vs))) faces of
        Inl e \<Rightarrow> (Inl e, w)
      | Inr faces' \<Rightarrow>
          (Inr (Rows (sorted_list_of_set (set (np_round 6 vs))), faces'),
           print_msg (Removed (int (length vs) - int (length (sorted_list_of_set (set (np_round 6 vs)))))) w))"
  by (simp add: remove_duplicate_vertices_def round_rows_def unique_rows_Rows split: sum.split)

lemma remove_duplicate_vertices_files:
  "remove_duplicate_vertices verts faces w = (r, w') \<Longrightarrow> files w' = files w"
  by (auto simp: remove_duplicate_vertices_def Let_def split: prod.splits sum.splits)

lemma take_faces_identity:
  assumes "faces_in_range n (map (map_tri sint) fs)"
  shows "take_faces (map int [0..<n]) (Some fs) = Inr (Some (map (map_tri sint) fs))"
proof -
  have "map (map_tri (\<lambda>i. map int [0..<n] ! nat (sint i))) fs = map (map_tri sint) fs"
  proof (rule map_cong [OF refl], rule map_tri_cong)
    fix t i
    assume "t \<in> set fs" and "i \<in> set (tri_list t)"
    with assms have "0 \<le> sint i" and "sint i < int n"
      by auto
    then show "map int [0..<n] ! nat (sint i) = sint i"
      by simp
  qed
  with assms show ?thesis
    by (simp add: take_faces_in_range)
qed

lemma remove_duplicate_vertices_NaNRows:
  "faces_in_range n (map (map_tri sint) fs) \<Longrightarrow> n \<le> 16 \<Longrightarrow>
     remove_duplicate_vertices (NaNRows n) (Some fs) w =
       (Inr (NaNRows n, Some (map (map_tri sint) fs)), print_msg (Removed 0) w)"
  by (simp add: remove_duplicate_vertices_def round_rows_def unique_rows_def take_faces_identity
      nan_unique_inverse_small)

lemma take_tri_py_range:
  "\<forall>i \<in> set (tri_list t). - int (length ix) \<le> sint i \<and> sint i < int (length ix) \<Longrightarrow>
     take_tri ix t = Inr (map_tri (\<lambda>i. ix ! nat (py_pos (length ix) (sint i))) t)"
  by (cases t) (simp add: take_tri_def py_index_py_pos)

lemma take_faces_py_range:
  "\<forall>t \<in> set fs. \<forall>i \<in> set (tri_list t). - int (length ix) \<le> sint i \<and> sint i < int (length ix) \<Longrightarrow>
     take_faces ix (Some fs) = Inr (Some (map (map_tri (\<lambda>i. ix ! nat (py_pos (length ix) (sint i)))) fs))"
  by (simp add: take_faces_def traverse_Inr take_tri_py_range)

lemma map_py_pos_in_range:
  assumes "faces_in_range n (map (map_tri sint) fs)"
  shows "map (map_tri (\<lambda>i. g (py_pos n (sint i)))) fs = map (map_tri (\<lambda>i. g (sint i))) fs"
proof (rule map_cong [OF refl], rule map_tri_cong)
  fix t i
  assume "t \<in> set fs" and "i \<in> set (tri_list t)"
  with assms have "0 \<le> sint i"
    by auto
  then show "g (py_pos n (sint i)) = g (sint i)"
    by simp
qed

text \<open>
  The result of deduplication for face indices valid in Python's sense,
  \<open>-n \<le> i < n\<close>: a face read through the new array yields the rounded
  vertex at the position Python's indexing gives \<open>i\<close>.
\<close>

lemma remove_duplicate_vertices_py:
  assumes "\<forall>t \<in> set fs. \<forall>i \<in> set (tri_list t). - int (length vs) \<le> sint i \<and> sint i < int (length vs)"
  defines "u \<equiv> sorted_list_of_set (set (np_round 6 vs))"
    and "fs' \<equiv> map (map_tri (\<lambda>i. snd (unique_ref (np_round 6 vs)) ! nat (py_pos (length vs) (sint i)))) fs"
  shows "remove_duplicate_vertices (Rows vs) (Some fs) w =
           (Inr (Rows u, Some fs'), print_msg (Removed (int (length vs) - int (length u))) w)"
    and "faces_in_range (length u) fs'"
    and "map (map_tri (\<lambda>i. u ! nat i)) fs' =
           map (map_tri (\<lambda>i. np_round 6 vs ! nat (py_pos (length vs) (sint i)))) fs"
proof -
  let ?r = "np_round 6 vs"
  let ?ix = "snd (unique_ref ?r)"
  have pos: "0 \<le> py_pos (length vs) (sint i) \<and> py_pos (length vs) (sint i) < int (length vs)"
    if "t \<in> set fs" "i \<in> set (tri_list t)" for t i
    using assms(1) that by (auto intro!: py_pos_range)
  have "take_faces ?ix (Some fs) = Inr (Some fs')"
    using assms(1) by (simp add: take_faces_py_range fs'_def)
  then show "remove_duplicate_vertices (Rows vs) (Some fs) w =
      (Inr (Rows u, Some fs'), print_msg (Removed (int (length vs) - int (length u))) w)"
    by (simp add: remove_duplicate_vertices_Rows u_def)
  show "faces_in_range (length u) fs'"
    using pos dedup_inverse(1,2) by (fastforce simp: nat_less_iff u_def fs'_def)
  have "map_tri (\<lambda>i. u ! nat i) (map_tri (\<lambda>i. ?ix ! nat (py_pos (length vs) (sint i))) t) =
        map_tri (\<lambda>i. ?r ! nat (py_pos (length vs) (sint i))) t" if "t \<in> set fs" for t
    using pos [OF that] dedup_inverse(3) by (auto intro!: map_tri_cong simp: nat_less_iff u_def)
  then show "map (map_tri (\<lambda>i. u ! nat i)) fs' =
      map (map_tri (\<lambda>i. np_round 6 vs ! nat (py_pos (length vs) (sint i)))) fs"
    by (simp add: fs'_def)
qed

lemma remove_duplicate_vertices_Some:
  assumes "faces_in_range (length vs) (map (map_tri sint) fs)"
  defines "u \<equiv> sorted_list_of_set (set (np_round 6 vs))"
    and "fs' \<equiv> map (map_tri (\<lambda>i. snd (unique_ref (np_round 6 vs)) ! nat (sint i))) fs"
  shows "remove_duplicate_vertices (Rows vs) (Some fs) w =
           (Inr (Rows u, Some fs'), print_msg (Removed (int (length vs) - int (length u))) w)"
    and "faces_in_range (length u) fs'"
    and "map (map_tri (\<lambda>i. u ! nat i)) fs' = map (map_tri (\<lambda>i. np_round 6 vs ! nat (sint i))) fs"
proof -
  have py: "\<forall>t \<in> set fs. \<forall>i \<in> set (tri_list t). - int (length vs) \<le> sint i \<and> sint i < int (length vs)"
    using assms(1) by fastforce
  note eq = map_py_pos_in_range [OF assms(1)]
  note r = remove_duplicate_vertices_py(1) [OF py, of w] remove_duplicate_vertices_py(2,3) [OF py]
  show "remove_duplicate_vertices (Rows vs) (Some fs) w =
      (Inr (Rows u, Some fs'), print_msg (Removed (int (length vs) - int (length u))) w)"
    using r(1) unfolding eq [of "\<lambda>j. snd (unique_ref (np_round 6 vs)) ! nat j"] u_def fs'_def .
  show "faces_in_range (length u) fs'"
    using r(2) unfolding eq [of "\<lambda>j. snd (unique_ref (np_round 6 vs)) ! nat j"] u_def fs'_def .
  show "map (map_tri (\<lambda>i. u ! nat i)) fs' = map (map_tri (\<lambda>i. np_round 6 vs ! nat (sint i))) fs"
    using r(3) unfolding eq [of "\<lambda>j. snd (unique_ref (np_round 6 vs)) ! nat j"]
      eq [of "\<lambda>j. np_round 6 vs ! nat j"] u_def fs'_def .
qed

section \<open>Correctness of deduplication\<close>

text \<open>
  C2. On a mesh that satisfies the invariant, deduplication succeeds: the new
  vertex array is the sorted list of distinct rounded rows, the count printed
  is the number of rows removed, the new faces index the new array, and each
  face read through the new array yields the rounded vertices the old face
  named.
\<close>

theorem remove_duplicate_vertices_correct:
  assumes "faces_in_range (length vs) (map (map_tri sint) fs)"
  shows "let u = sorted_list_of_set (set (np_round 6 vs)) in
     \<exists>fs'. remove_duplicate_vertices (Rows vs) (Some fs) w =
             (Inr (Rows u, Some fs'), print_msg (Removed (int (length vs) - int (length u))) w)
         \<and> faces_in_range (length u) fs'
         \<and> map (map_tri (\<lambda>i. u ! nat i)) fs' = map (map_tri (\<lambda>i. np_round 6 vs ! nat (sint i))) fs"
  unfolding Let_def
  using remove_duplicate_vertices_Some(1) [OF assms, of w] remove_duplicate_vertices_Some(2,3) [OF assms]
  by blast

theorem remove_duplicate_vertices_correct_witness:
  "faces_in_range (length [(1 / 10 ^ 7, 0, 0), (2 / 10 ^ 7, 0, 0), (1, 0, 0) :: vertex])
     (map (map_tri sint) [(0, 1, 2) :: 32 word tri])
   \<and> (\<exists>fs'. remove_duplicate_vertices (Rows [(1 / 10 ^ 7, 0, 0), (2 / 10 ^ 7, 0, 0), (1, 0, 0)])
           (Some [(0, 1, 2)]) \<lparr>files = Map.empty, stdout = []\<rparr> =
         (Inr (Rows [(0, 0, 0), (1, 0, 0)], Some fs'), \<lparr>files = Map.empty, stdout = [Removed 1]\<rparr>)
       \<and> faces_in_range 2 fs')"
proof -
  have h: "faces_in_range (length [(1 / 10 ^ 7, 0, 0), (2 / 10 ^ 7, 0, 0), (1, 0, 0) :: vertex])
     (map (map_tri sint) [(0, 1, 2) :: 32 word tri])"
    by (simp add: faces_in_range_def)
  have u: "sorted_list_of_set (set (np_round 6 [(1 / 10 ^ 7, 0, 0), (2 / 10 ^ 7, 0, 0), (1, 0, 0)])) =
      [(0, 0, 0), (1, 0, 0)]"
    by code_simp
  note c = remove_duplicate_vertices_correct [OF h, of "\<lparr>files = Map.empty, stdout = []\<rparr>"]
  show ?thesis
    using h c [unfolded Let_def u] by (auto simp: print_msg_def numeral_2_eq_2)
qed

text \<open>
  C3. The rows deduplication returns are distinct, each is a fixed point of
  rounding to 6 decimals, and they are exactly the rounded input rows.
\<close>

theorem remove_duplicate_vertices_unique:
  assumes "remove_duplicate_vertices (Rows vs) faces w = (Inr (Rows u, faces'), w')"
  shows "sorted_wrt (<) u \<and> (\<forall>v \<in> set u. map_tri round6 v = v) \<and> set u = map_tri round6 ` set vs"
proof -
  have u: "u = sorted_list_of_set (set (np_round 6 vs))"
    using assms by (simp add: remove_duplicate_vertices_Rows split: sum.splits)
  have idem: "map_tri round6 (map_tri round6 v) = map_tri round6 v" for v :: vertex
    by simp
  show ?thesis
    using idem by (auto simp: u np_round_def)
qed

theorem remove_duplicate_vertices_unique_witness:
  "remove_duplicate_vertices (Rows [(1, 0, 0), (1, 0, 0)]) None \<lparr>files = Map.empty, stdout = []\<rparr> =
     (Inr (Rows [(1, 0, 0)], None), \<lparr>files = Map.empty, stdout = [Removed 1]\<rparr>)
   \<and> sorted_wrt (<) [(1 :: real, 0 :: real, 0 :: real)]
   \<and> map_tri round6 (1, 0, 0) = (1 :: real, 0 :: real, 0 :: real)
   \<and> set [(1 :: real, 0 :: real, 0 :: real)] = map_tri round6 ` set [(1, 0, 0), (1, 0, 0)]"
proof -
  have u: "sorted_list_of_set (set (np_round 6 [(1, 0, 0), (1, 0, 0)])) = [(1, 0, 0)]"
    by code_simp
  have run: "remove_duplicate_vertices (Rows [(1, 0, 0), (1, 0, 0)]) None \<lparr>files = Map.empty, stdout = []\<rparr> =
     (Inr (Rows [(1, 0, 0)], None), \<lparr>files = Map.empty, stdout = [Removed 1]\<rparr>)"
    unfolding remove_duplicate_vertices_Rows u by (simp add: take_faces_def print_msg_def)
  show ?thesis
    using run remove_duplicate_vertices_unique [OF run] by simp
qed

text \<open>
  C4. Deduplication never adds rows: the count it prints is the number of
  rows removed and is never negative.
\<close>

theorem remove_duplicate_vertices_removed_bound:
  assumes "remove_duplicate_vertices (Rows vs) faces w = (Inr (Rows u, faces'), w')"
  shows "length u \<le> length vs \<and> stdout w' = stdout w @ [Removed (int (length vs) - int (length u))]
     \<and> 0 \<le> int (length vs) - int (length u)"
proof -
  have run: "u = sorted_list_of_set (set (np_round 6 vs))"
    "w' = print_msg (Removed (int (length vs) - int (length u))) w"
    using assms by (auto simp: remove_duplicate_vertices_Rows split: sum.splits)
  have "length u \<le> length (np_round 6 vs)"
    using unique_rows_length [of "np_round 6 vs"] by (simp add: run unique_ref_fst)
  then show ?thesis
    using run by simp
qed

theorem remove_duplicate_vertices_removed_bound_witness:
  "remove_duplicate_vertices (Rows [(0, 0, 0), (1 / 10 ^ 9, 0, 0), (1, 1, 1)]) (Some [(0, 1, 2)])
     \<lparr>files = Map.empty, stdout = []\<rparr> =
     (Inr (Rows [(0, 0, 0), (1, 1, 1)], Some [(0, 0, 1)]), \<lparr>files = Map.empty, stdout = [Removed 1]\<rparr>)
   \<and> length [(0 :: real, 0 :: real, 0 :: real), (1, 1, 1)] \<le> length [(0 :: real, 0 :: real, 0 :: real), (1 / 10 ^ 9, 0, 0), (1, 1, 1)]"
proof -
  have u: "sorted_list_of_set (set (np_round 6 [(0, 0, 0), (1 / 10 ^ 9, 0, 0), (1, 1, 1)])) =
      [(0, 0, 0), (1, 1, 1)]"
    by code_simp
  have ix: "snd (unique_ref (np_round 6 [(0, 0, 0), (1 / 10 ^ 9, 0, 0), (1, 1, 1)])) = [0, 0, 1]"
    by code_simp
  have run: "remove_duplicate_vertices (Rows [(0, 0, 0), (1 / 10 ^ 9, 0, 0), (1, 1, 1)]) (Some [(0, 1, 2)])
     \<lparr>files = Map.empty, stdout = []\<rparr> =
     (Inr (Rows [(0, 0, 0), (1, 1, 1)], Some [(0, 0, 1)]), \<lparr>files = Map.empty, stdout = [Removed 1]\<rparr>)"
    unfolding remove_duplicate_vertices_Rows u ix by (simp add: take_faces_def take_tri_def print_msg_def)
  show ?thesis
    using run remove_duplicate_vertices_removed_bound [OF run] by simp
qed

text \<open>
  C5. A face index outside \<open>[-n, n)\<close> for \<open>n\<close> input rows makes
  \<open>inverse_indices[faces]\<close> raise IndexError; nothing is printed.
\<close>

theorem remove_duplicate_vertices_index_error:
  assumes "t \<in> set fs" and "i \<in> set (tri_list t)"
    and "sint i < - int (length vs) \<or> int (length vs) \<le> sint i"
  shows "remove_duplicate_vertices (Rows vs) (Some fs) w = (Inl IndexError, w)"
proof -
  let ?ix = "snd (unique_ref (np_round 6 vs))"
  have "sint i < - int (length ?ix) \<or> int (length ?ix) \<le> sint i"
    using assms(3) by simp
  with assms(2) have "\<exists>i \<in> set (tri_list t). sint i < - int (length ?ix) \<or> int (length ?ix) \<le> sint i"
    by blast
  then have "take_tri ?ix t = Inl IndexError"
    by (rule take_tri_out_of_range)
  then obtain e where "traverse (take_tri ?ix) fs = Inl e"
    using traverse_Inl_intro [OF assms(1), where f = "take_tri ?ix"] by blast
  then have "take_faces ?ix (Some fs) = Inl e"
    by (simp add: take_faces_def)
  moreover from this have "e = IndexError"
    by (rule take_faces_Inl)
  ultimately show ?thesis
    by (simp add: remove_duplicate_vertices_Rows)
qed

theorem remove_duplicate_vertices_index_error_witness:
  "(0, 1, 2) \<in> set [(0, 1, 2) :: 32 word tri] \<and> (2 :: 32 word) \<in> set (tri_list (0, 1, 2))
   \<and> (sint (2 :: 32 word) < - int (length [(0, 0, 0), (1, 0, 0) :: vertex])
      \<or> int (length [(0, 0, 0), (1, 0, 0) :: vertex]) \<le> sint (2 :: 32 word))
   \<and> remove_duplicate_vertices (Rows [(0, 0, 0), (1, 0, 0)]) (Some [(0, 1, 2)])
       \<lparr>files = Map.empty, stdout = []\<rparr> = (Inl IndexError, \<lparr>files = Map.empty, stdout = []\<rparr>)"
proof -
  have h1: "(0, 1, 2) \<in> set [(0, 1, 2) :: 32 word tri]" by simp
  have h2: "(2 :: 32 word) \<in> set (tri_list (0, 1, 2))" by simp
  have h3: "sint (2 :: 32 word) < - int (length [(0, 0, 0), (1, 0, 0) :: vertex])
      \<or> int (length [(0, 0, 0), (1, 0, 0) :: vertex]) \<le> sint (2 :: 32 word)" by simp
  show ?thesis
    using h1 h2 h3 remove_duplicate_vertices_index_error [OF h1 h2 h3] by (simp only: simp_thms)
qed

text \<open>
  C6. Without faces the deduplicator returns None for them, not an empty
  array, and still deduplicates the rows.
\<close>

theorem remove_duplicate_vertices_no_faces:
  "remove_duplicate_vertices (Rows vs) None w =
     (Inr (Rows (sorted_list_of_set (set (np_round 6 vs))), None),
      print_msg (Removed (int (length vs) - int (card (set (np_round 6 vs))))) w)"
  by (simp add: remove_duplicate_vertices_Rows take_faces_def)

text \<open>
  C7. Deduplication merges exactly the vertices that round to the same
  row: on a mesh that satisfies the invariant, two face entries receive
  the same new index if and only if the vertices they named agree after
  rounding every coordinate to 6 decimals.
\<close>

theorem near_vertices_collapse:
  assumes "faces_in_range (length vs) (map (map_tri sint) fs)"
    and "remove_duplicate_vertices (Rows vs) (Some fs) w = (Inr (Rows u, Some fs'), w')"
    and "p < length fs" and "q < length fs"
  shows "axis j (fs' ! p) = axis k (fs' ! q) \<longleftrightarrow>
    map_tri round6 (vs ! nat (sint (axis j (fs ! p)))) = map_tri round6 (vs ! nat (sint (axis k (fs ! q))))"
proof -
  let ?r = "np_round 6 vs"
  let ?ix = "snd (unique_ref ?r)"
  let ?u = "sorted_list_of_set (set ?r)"
  have run: "u = ?u" "fs' = map (map_tri (\<lambda>i. ?ix ! nat (sint i))) fs"
    using assms(2) remove_duplicate_vertices_Some(1) [OF assms(1), of w] by simp_all
  define a b where "a = nat (sint (axis j (fs ! p)))" and "b = nat (sint (axis k (fs ! q)))"
  have rng: "0 \<le> sint (axis m (fs ! l)) \<and> sint (axis m (fs ! l)) < int (length vs)" if "l < length fs" for l m
    using assms(1) nth_mem [OF that] axis_in_tri_list [of m "fs ! l"] by simp
  have a: "a < length vs" and b: "b < length vs"
    using rng [OF assms(3), of j] rng [OF assms(4), of k] by (simp_all add: a_def b_def nat_less_iff)
  have fa: "axis j (fs' ! p) = ?ix ! a" and fb: "axis k (fs' ! q) = ?ix ! b"
    using assms(3,4) by (simp_all add: run a_def b_def)
  have "?ix ! a = ?ix ! b \<longleftrightarrow> ?u ! nat (?ix ! a) = ?u ! nat (?ix ! b)"
    using dedup_inverse(1,2) [OF a] dedup_inverse(1,2) [OF b]
    by (simp add: nth_eq_iff_index_eq nat_less_iff eq_nat_nat_iff)
  also have "\<dots> \<longleftrightarrow> ?r ! a = ?r ! b"
    by (simp add: dedup_inverse(3) [OF a] dedup_inverse(3) [OF b])
  finally show ?thesis
    using a b by (simp add: fa fb a_def b_def np_round_def)
qed

theorem near_vertices_collapse_witness:
  "remove_duplicate_vertices (Rows [(1 / 10 ^ 7, 0, 0), (2 / 10 ^ 7, 0, 0), (1, 1, 1)])
     (Some [(0, 1, 2)]) \<lparr>files = Map.empty, stdout = []\<rparr> =
   (Inr (Rows [(0, 0, 0), (1, 1, 1)], Some [(0, 0, 1)]), \<lparr>files = Map.empty, stdout = [Removed 1]\<rparr>)
   \<and> map_tri round6 (1 / 10 ^ 7, 0, 0) = map_tri round6 (2 / 10 ^ 7, 0, 0)"
proof -
  have u: "sorted_list_of_set (set (np_round 6 [(1 / 10 ^ 7, 0, 0), (2 / 10 ^ 7, 0, 0), (1, 1, 1)])) =
      [(0, 0, 0), (1, 1, 1)]"
    by code_simp
  have ix: "snd (unique_ref (np_round 6 [(1 / 10 ^ 7, 0, 0), (2 / 10 ^ 7, 0, 0), (1, 1, 1)])) = [0, 0, 1]"
    by code_simp
  have h1: "faces_in_range (length [(1 / 10 ^ 7, 0, 0), (2 / 10 ^ 7, 0, 0), (1, 1, 1) :: vertex])
     (map (map_tri sint) [(0, 1, 2) :: 32 word tri])"
    by (simp add: faces_in_range_def)
  have h2: "remove_duplicate_vertices (Rows [(1 / 10 ^ 7, 0, 0), (2 / 10 ^ 7, 0, 0), (1, 1, 1)])
     (Some [(0, 1, 2)]) \<lparr>files = Map.empty, stdout = []\<rparr> =
   (Inr (Rows [(0, 0, 0), (1, 1, 1)], Some [(0, 0, 1)]), \<lparr>files = Map.empty, stdout = [Removed 1]\<rparr>)"
    unfolding remove_duplicate_vertices_Rows u ix by (simp add: take_faces_def take_tri_def print_msg_def)
  have h3: "0 < length [(0, 1, 2) :: 32 word tri]"
    by simp
  show ?thesis
    using h2 near_vertices_collapse [OF h1 h2 h3 h3, of 0 1] by simp
qed

text \<open>
  C8. A negative face index is not rejected: as in Python, an index
  \<open>i\<close> with \<open>-n \<le> i < 0\<close> counts from the end of the \<open>n\<close> input rows.
  Deduplication then succeeds, the new faces index the new array, and a
  face read through it yields the rounded vertex at position \<open>n + i\<close> for
  a negative index and \<open>i\<close> otherwise.
\<close>

theorem negative_face_index_wraps:
  assumes "\<forall>t \<in> set fs. \<forall>i \<in> set (tri_list t). - int (length vs) \<le> sint i \<and> sint i < int (length vs)"
  shows "let u = sorted_list_of_set (set (np_round 6 vs)) in
     \<exists>fs'. remove_duplicate_vertices (Rows vs) (Some fs) w =
             (Inr (Rows u, Some fs'), print_msg (Removed (int (length vs) - int (length u))) w)
         \<and> faces_in_range (length u) fs'
         \<and> map (map_tri (\<lambda>i. u ! nat i)) fs' =
             map (map_tri (\<lambda>i. np_round 6 vs ! nat (if sint i < 0 then int (length vs) + sint i else sint i))) fs"
  unfolding Let_def
  using remove_duplicate_vertices_py(1) [OF assms, of w] remove_duplicate_vertices_py(2,3) [OF assms]
  by (auto simp: py_pos_def add.commute)

theorem negative_face_index_wraps_witness:
  "\<exists>fs'. remove_duplicate_vertices (Rows [(0, 0, 0), (1, 0, 0)]) (Some [(- 1, 0, 1)])
        \<lparr>files = Map.empty, stdout = []\<rparr> =
      (Inr (Rows [(0, 0, 0), (1, 0, 0)], Some fs'), \<lparr>files = Map.empty, stdout = [Removed 0]\<rparr>)
    \<and> map (map_tri (\<lambda>i. [(0, 0, 0), (1, 0, 0) :: vertex] ! nat i)) fs' = [((1, 0, 0), (0, 0, 0), (1, 0, 0))]"
proof -
  have u: "sorted_list_of_set (set (np_round 6 [(0, 0, 0), (1, 0, 0)])) = [(0, 0, 0), (1, 0, 0)]"
    by code_simp
  have r: "np_round 6 [(0, 0, 0), (1, 0, 0)] = [(0, 0, 0), (1, 0, 0)]"
    by code_simp
  have h: "\<forall>t \<in> set [(- 1, 0, 1) :: 32 word tri]. \<forall>i \<in> set (tri_list t).
      - int (length [(0, 0, 0), (1, 0, 0) :: vertex]) \<le> sint i \<and> sint i < int (length [(0, 0, 0), (1, 0, 0) :: vertex])"
    by simp
  show ?thesis
    using negative_face_index_wraps [OF h, of "\<lparr>files = Map.empty, stdout = []\<rparr>"]
    unfolding Let_def u r by (simp add: print_msg_def) (elim exE conjE, rule exI, rule conjI, assumption+)
qed

end
