(* ===== verification/Serializer.thy ===== *)
theory Serializer
  imports Prelude
begin

text \<open>
  \<open>save_processed_data(verts, faces, out_path)\<close> (mixar_preprocess.py,
  lines 48--51): one call of \<open>np.savez\<close> with the keywords \<open>vertices\<close> and
  \<open>faces\<close>, then the confirmation print.  \<open>np.savez\<close> is modelled by what it
  does to the file system: it appends \<open>.npz\<close> to a file name that does not
  end with it, converts \<open>None\<close> to a 0-d object array, and replaces the file
  at that path by an archive holding the named arrays in keyword order.
  The reading side, \<open>np.load\<close> and the archive's item lookup, is not code
  of the repository; it is modelled from NumPy's documented behaviour and
  the spec (section 4.4), to state the round trip the spec asks for.
\<close>

section \<open>Writing\<close>

text \<open>Python's \<open>str.endswith\<close>.\<close>

definition ends_with :: "string \<Rightarrow> string \<Rightarrow> bool" where
  "ends_with s suf \<longleftrightarrow> length suf \<le> length s \<and> drop (length s - length suf) s = suf"

text \<open>The file name \<open>np.savez\<close> writes to, for a string argument.\<close>

definition npz_path :: "string \<Rightarrow> string" where
  "npz_path p = (if ends_with p ''.npz'' then p else p @ ''.npz'')"

text \<open>\<open>np.asanyarray\<close> of the \<open>faces\<close> argument: \<open>None\<close> becomes an object array.\<close>

definition to_npy_faces :: "int tri list option \<Rightarrow> npy_array" where
  "to_npy_faces faces = (case faces of None \<Rightarrow> ObjectNone | Some fs \<Rightarrow> IntRows fs)"

definition np_savez :: "string \<Rightarrow> (string \<times> npy_array) list \<Rightarrow> world \<Rightarrow> world" where
  "np_savez p kwds w = w\<lparr>files := (files w)(npz_path p \<mapsto> Npz kwds)\<rparr>"

definition save_processed_data :: "varray \<Rightarrow> int tri list option \<Rightarrow> string \<Rightarrow> world \<Rightarrow> world" where
  "save_processed_data verts faces out_path w =
     (let w1 = np_savez out_path [(''vertices'', F64Rows verts), (''faces'', to_npy_faces faces)] w
      in print_msg (Saved out_path) w1)"

section \<open>Reading\<close>

text \<open>
  \<open>np.load(path, allow_pickle)\<close> on an archive: a missing file raises
  FileNotFoundError, a file that is not an archive raises ValueError.
\<close>

definition np_load :: "string \<Rightarrow> world \<Rightarrow> py_error + (string \<times> npy_array) list" where
  "np_load p w =
     (case files w p of
        None \<Rightarrow> Inl (FileNotFoundError p)
      | Some (Blob _) \<Rightarrow> Inl (ValueError ''not a NumPy archive'')
      | Some (Npz es) \<Rightarrow> Inr es)"

text \<open>
  \<open>archive[key]\<close>: a missing key raises KeyError; an object array can only
  be read with \<open>allow_pickle=True\<close> (the default of \<open>np.load\<close> is False).
\<close>

definition npz_get :: "bool \<Rightarrow> (string \<times> npy_array) list \<Rightarrow> string \<Rightarrow> py_error + npy_array" where
  "npz_get allow_pickle es key =
     (case map_of es key of
        None \<Rightarrow> Inl (KeyError (key @ '' is not a file in the archive''))
      | Some ObjectNone \<Rightarrow>
          (if allow_pickle then Inr ObjectNone
           else Inl (ValueError ''Object arrays cannot be loaded when allow_pickle=False''))
      | Some a \<Rightarrow> Inr a)"

text \<open>
  A consumer reading a processed archive back as the spec's ProcessedArchive:
  \<open>vertices\<close> as float64 rows, \<open>faces\<close> as integer rows or, for the object
  array holding \<open>None\<close>, no face data.
\<close>

definition read_processed ::
  "bool \<Rightarrow> string \<Rightarrow> world \<Rightarrow> py_error + varray \<times> int tri list option" where
  "read_processed allow_pickle p w =
     (case np_load p w of
        Inl e \<Rightarrow> Inl e
      | Inr es \<Rightarrow>
          (case npz_get allow_pickle es ''vertices'' of
             Inl e \<Rightarrow> Inl e
           | Inr (F64Rows vs) \<Rightarrow>
               (case npz_get allow_pickle es ''faces'' of
                  Inl e \<Rightarrow> Inl e
                | Inr (IntRows fs) \<Rightarrow> Inr (vs, Some fs)
                | Inr ObjectNone \<Rightarrow> Inr (vs, None)
                | Inr (F64Rows _) \<Rightarrow> Inl (ValueError ''faces are not integer rows''))
           | Inr _ \<Rightarrow> Inl (ValueError ''vertices are not float rows'')))"

text \<open>
  The shape of the spec's ProcessedArchive: the two named arrays, float
  rows under \<open>vertices\<close>, and integer rows or the "no faces" marker under
  \<open>faces\<close>.
\<close>

definition processed_archive :: "(string \<times> npy_array) list \<Rightarrow> bool" where
  "processed_archive es \<longleftrightarrow>
     map fst es = [''vertices'', ''faces''] \<and>
     (case map snd es of
        [F64Rows _, IntRows _] \<Rightarrow> True
      | [F64Rows _, ObjectNone] \<Rightarrow> True
      | _ \<Rightarrow> False)"

lemmas serializer_defs [mesh_simps] =
  ends_with_def npz_path_def to_npy_faces_def np_savez_def save_processed_data_def
  np_load_def npz_get_def read_processed_def processed_archive_def

section \<open>Lemmas\<close>

lemma ends_with_append [simp]: "ends_with (s @ suf) suf"
  by (simp add: ends_with_def)

lemma ends_with_npz_path [simp]: "ends_with (npz_path p) ''.npz''"
  by (simp add: npz_path_def)

lemma save_processed_data_files:
  "files (save_processed_data verts faces p w) =
     (files w)(npz_path p \<mapsto> Npz [(''vertices'', F64Rows verts), (''faces'', to_npy_faces faces)])"
  by (simp add: save_processed_data_def np_savez_def)

lemma save_processed_data_stdout [simp]:
  "stdout (save_processed_data verts faces p w) = stdout w @ [Saved p]"
  by (simp add: save_processed_data_def np_savez_def)

lemma np_load_saved [simp]:
  "np_load (npz_path p) (save_processed_data verts faces p w) =
     Inr [(''vertices'', F64Rows verts), (''faces'', to_npy_faces faces)]"
  by (simp add: np_load_def save_processed_data_files)

lemma processed_archive_saved [simp]:
  "processed_archive [(''vertices'', F64Rows verts), (''faces'', to_npy_faces faces)]"
  by (cases faces) (simp_all add: processed_archive_def to_npy_faces_def)

lemma npz_path_idem [simp]: "npz_path (npz_path p) = npz_path p"
  by (simp add: npz_path_def)

section \<open>Properties of saving\<close>

text \<open>
  C18. Round trip: reading the archive that \<open>save_processed_data\<close> wrote,
  with pickling allowed, gives back exactly the vertex array and the
  optional face array that were saved, \<open>None\<close> faces included.
\<close>

theorem save_processed_data_roundtrip:
  "read_processed True (npz_path p) (save_processed_data verts faces p w) = Inr (verts, faces)"
  by (cases faces) (simp_all add: read_processed_def npz_get_def to_npy_faces_def)

text \<open>
  C19. With NumPy's default \<open>allow_pickle=False\<close> the round trip holds only
  when faces were saved: absent faces were written as a pickled object
  array, and reading them back raises ValueError instead of yielding
  "no face data".
\<close>

theorem save_processed_data_default_load:
  "read_processed False (npz_path p) (save_processed_data verts faces p w) =
     (case faces of
        None \<Rightarrow> Inl (ValueError ''Object arrays cannot be loaded when allow_pickle=False'')
      | Some fs \<Rightarrow> Inr (verts, Some fs))"
  by (cases faces) (simp_all add: read_processed_def npz_get_def to_npy_faces_def)

text \<open>
  C20. Saving touches only the archive's path: every other file keeps its
  content, and an existing file at the archive's path is overwritten.
\<close>

theorem save_processed_data_frame:
  assumes "q \<noteq> npz_path p"
  shows "files (save_processed_data verts faces p w) q = files w q"
  using assms by (simp add: save_processed_data_files)

theorem save_processed_data_frame_witness:
  "files (save_processed_data (Rows []) None ''out.npz'' \<lparr>files = [''in.obj'' \<mapsto> Blob ''v 0 0 0''], stdout = []\<rparr>) ''in.obj''
     = Some (Blob ''v 0 0 0'')"
proof -
  have h: "''in.obj'' \<noteq> npz_path ''out.npz''" by (simp add: npz_path_def ends_with_def)
  show ?thesis
    using save_processed_data_frame [OF h, of "Rows []" None "\<lparr>files = [''in.obj'' \<mapsto> Blob ''v 0 0 0''], stdout = []\<rparr>"]
    by simp
qed

text \<open>
  C21. For an output name without the \<open>.npz\<close> suffix, the archive is
  written to \<open>out_path + '.npz'\<close> while the file named \<open>out_path\<close> is left
  as it was, and the confirmation message names \<open>out_path\<close>, a file the
  call did not write.
\<close>

theorem save_processed_data_unsuffixed:
  assumes "\<not> ends_with p ''.npz''"
  shows "npz_path p = p @ ''.npz''
    \<and> files (save_processed_data verts faces p w) p = files w p
    \<and> last (stdout (save_processed_data verts faces p w)) = Saved p"
  using assms by (simp add: save_processed_data_files npz_path_def)

theorem save_processed_data_unsuffixed_witness:
  "npz_path ''processed'' = ''processed.npz''
   \<and> files (save_processed_data (Rows []) None ''processed'' \<lparr>files = Map.empty, stdout = []\<rparr>) ''processed'' = None
   \<and> last (stdout (save_processed_data (Rows []) None ''processed'' \<lparr>files = Map.empty, stdout = []\<rparr>)) = Saved ''processed''"
proof -
  have h: "\<not> ends_with ''processed'' ''.npz''" by (simp add: ends_with_def)
  show ?thesis
    using save_processed_data_unsuffixed [OF h, of "Rows []" None "\<lparr>files = Map.empty, stdout = []\<rparr>"]
    by simp
qed

end
