(* ===== verification/Cli.thy ===== *)
theory Cli
  imports Prelude
begin

text \<open>
  The command line of the \<open>__main__\<close> block (mixar_preprocess.py, lines
  65--71): an \<open>argparse.ArgumentParser\<close> with the automatic \<open>-h\<close>/\<open>--help\<close>
  and the two options \<open>--input\<close> and \<open>--output\<close>, each taking one value
  with a default.  \<open>parse_args\<close> follows CPython's argparse as shipped with
  Python 3.11.10 (\<open>_parse_known_args\<close>, \<open>_parse_optional\<close>,
  \<open>_get_option_tuples\<close>, \<open>consume_optional\<close>):
  every word is first classified (\<open>_parse_optional\<close>: a value, a known
  option, possibly abbreviated or with \<open>=VALUE\<close> attached, an unknown
  option, or an ambiguous abbreviation, which is an error at once); the
  words are then consumed left to right: an option takes the next value
  word (never \<open>--\<close>: argparse removes the \<open>--\<close> marker from the
  argument pattern of an option), \<open>-h\<close> prints the help and exits with
  status 0 as soon as it is reached, and anything left over (values
  without an option, unknown options, \<open>--\<close> and what follows it) is an
  error once all words are consumed.  Usage errors exit with status 2; their message goes to
  standard error, which the model does not record.
\<close>

section \<open>Words and options\<close>

definition default_input :: string where
  "default_input = ''airboat.obj''"

definition default_output :: string where
  "default_output = ''processed_airboat.npz''"

text \<open>Python's \<open>s.startswith(pre)\<close>.\<close>

definition starts_with :: "string \<Rightarrow> string \<Rightarrow> bool" where
  "starts_with pre s \<longleftrightarrow> take (length pre) s = pre"

definition all_digits :: "string \<Rightarrow> bool" where
  "all_digits s \<longleftrightarrow> list_all (\<lambda>c. c \<in> set ''0123456789'') s"

text \<open>argparse's \<open>_negative_number_matcher\<close>: \<open>-DIGITS\<close> or \<open>-[DIGITS].DIGITS\<close>.\<close>

definition negative_number :: "string \<Rightarrow> bool" where
  "negative_number s \<longleftrightarrow>
     (case s of
        c # r \<Rightarrow> c = CHR ''-'' \<and>
          ((r \<noteq> [] \<and> all_digits r)
           \<or> (let a = takeWhile (\<lambda>c. c \<noteq> CHR ''.'') r; b = dropWhile (\<lambda>c. c \<noteq> CHR ''.'') r
              in all_digits a \<and> b \<noteq> [] \<and> tl b \<noteq> [] \<and> all_digits (tl b)))
      | [] \<Rightarrow> False)"

datatype opt_kind = OptHelp | OptInput | OptOutput

text \<open>The parser's option strings, in the order argparse registers them.\<close>

definition cli_options :: "(string \<times> opt_kind) list" where
  "cli_options = [(''-h'', OptHelp), (''--help'', OptHelp), (''--input'', OptInput), (''--output'', OptOutput)]"

text \<open>
  What \<open>_parse_optional\<close> makes of a word: a value, a known option with
  the argument attached to it, if any, an unknown option, or an ambiguous
  abbreviation.  An attached argument is \<open>(glued, text)\<close>: \<open>glued\<close> when it
  follows a one-dash option directly (argparse's \<open>sep = ''\<close>, as in
  \<open>-hx\<close>), not glued when it follows \<open>=\<close>.
\<close>

datatype arg_class = Positional | Known opt_kind "(bool \<times> string) option" | UnknownOpt | Ambiguous

text \<open>\<open>_get_option_tuples\<close>: the options a word abbreviates.\<close>

definition option_tuples :: "string \<Rightarrow> (opt_kind \<times> (bool \<times> string) option) list" where
  "option_tuples s =
     (if starts_with ''--'' s then
        (let pre = takeWhile (\<lambda>c. c \<noteq> CHR ''='') s;
             ex = (if CHR ''='' \<in> set s then Some (False, tl (dropWhile (\<lambda>c. c \<noteq> CHR ''='') s)) else None)
         in map (\<lambda>(opt, k). (k, ex)) (filter (\<lambda>(opt, k). starts_with pre opt) cli_options))
      else
        map (\<lambda>(opt, k). (k, Some (True, drop 2 s))) (filter (\<lambda>(opt, k). opt = take 2 s) cli_options)
        @ map (\<lambda>(opt, k). (k, None))
            (filter (\<lambda>(opt, k). opt \<noteq> take 2 s \<and> starts_with s opt) cli_options))"

definition classify_arg :: "string \<Rightarrow> arg_class" where
  "classify_arg s =
     (if s = [] \<or> hd s \<noteq> CHR ''-'' then Positional
      else case map_of cli_options s of
        Some k \<Rightarrow> Known k None
      | None \<Rightarrow>
          if length s = 1 then Positional
          else
            (let pre = takeWhile (\<lambda>c. c \<noteq> CHR ''='') s
             in case (if CHR ''='' \<in> set s then map_of cli_options pre else None) of
                  Some k \<Rightarrow> Known k (Some (False, tl (dropWhile (\<lambda>c. c \<noteq> CHR ''='') s)))
                | None \<Rightarrow>
                    (case option_tuples s of
                       [(k, ex)] \<Rightarrow> Known k ex
                     | _ # _ # _ \<Rightarrow> Ambiguous
                     | [] \<Rightarrow> if negative_number s \<or> CHR '' '' \<in> set s then Positional else UnknownOpt)))"

text \<open>A word argparse hands to an option as its value.\<close>

definition cli_value :: "string \<Rightarrow> bool" where
  "cli_value v \<longleftrightarrow> v \<noteq> ''--'' \<and> classify_arg v = Positional"

section \<open>Parsing\<close>

datatype cli_result = CliRun string string | CliHelp | CliUsageError

definition set_opt :: "opt_kind \<Rightarrow> string \<Rightarrow> string \<times> string \<Rightarrow> string \<times> string" where
  "set_opt k v a = (case k of OptInput \<Rightarrow> (v, snd a) | OptOutput \<Rightarrow> (fst a, v) | OptHelp \<Rightarrow> a)"

text \<open>The end of parsing: left-over words are an error (\<open>unrecognized arguments\<close>).\<close>

definition finish :: "string \<times> string \<Rightarrow> bool \<Rightarrow> cli_result" where
  "finish a extras = (if extras then CliUsageError else CliRun (fst a) (snd a))"

text \<open>
  The loop of \<open>consume_optional\<close> on \<open>-h\<close> with glued characters: each
  \<open>h\<close> is one more help action; a character that names no option ends
  the word, which goes to the extras, and the help actions run; \<open>-\<close> or
  \<open>=\<close> after an \<open>h\<close> is \<open>ignored explicit argument\<close>, an error raised
  before any action runs.
\<close>

fun help_glued :: "string \<Rightarrow> bool" where
  "help_glued [] = True"
| "help_glued (c # e) =
     (c \<noteq> CHR ''-'' \<and>
      (c = CHR ''h'' \<longrightarrow> (case e of [] \<Rightarrow> True | d # _ \<Rightarrow> d \<noteq> CHR ''='' \<and> help_glued e)))"

text \<open>
  The consuming pass (\<open>consume_optional\<close> and the extras of
  \<open>_parse_known_args\<close>), with the values set so far and whether a word was
  left over.  An option without attached argument takes the pattern
  \<open>A\<close> (\<open>_get_nargs_pattern\<close> strips \<open>-*\<close> for options): exactly the next
  word, which must be a value word.  \<open>--\<close> is never consumed by an option,
  so reaching it means it and the words after it are left over.
\<close>

fun consume :: "string list \<Rightarrow> string \<times> string \<Rightarrow> bool \<Rightarrow> cli_result" where
  "consume [] a extras = finish a extras"
| "consume (x # rest) a extras =
     (if x = ''--'' then CliUsageError
      else case classify_arg x of
        Positional \<Rightarrow> consume rest a True
      | UnknownOpt \<Rightarrow> consume rest a True
      | Ambiguous \<Rightarrow> CliUsageError
      | Known OptHelp None \<Rightarrow> CliHelp
      | Known OptHelp (Some (glued, e)) \<Rightarrow> (if glued \<and> help_glued e then CliHelp else CliUsageError)
      | Known k (Some (_, e)) \<Rightarrow> consume rest (set_opt k e a) extras
      | Known k None \<Rightarrow>
          (case rest of
             [] \<Rightarrow> CliUsageError
           | v # rest' \<Rightarrow>
               if v \<noteq> ''--'' \<and> classify_arg v = Positional then consume rest' (set_opt k v a) extras
               else CliUsageError))"

text \<open>
  \<open>parser.parse_args()\<close>: the classifying pass runs over the words before
  the first \<open>--\<close> and stops at an ambiguous abbreviation.
\<close>

definition parse_args :: "string list \<Rightarrow> cli_result" where
  "parse_args argv =
     (if list_ex (\<lambda>x. classify_arg x = Ambiguous) (takeWhile (\<lambda>x. x \<noteq> ''--'') argv) then CliUsageError
      else consume argv (default_input, default_output) False)"

text \<open>The option string of a value-taking option, as a user writes it (the
  spelling of the statement \<open>parser.add_argument\<close>).\<close>

fun long_option :: "opt_kind \<Rightarrow> string" where
  "long_option OptInput = ''--input''"
| "long_option OptOutput = ''--output''"
| "long_option OptHelp = ''--help''"

lemmas cli_defs [mesh_simps] =
  default_input_def default_output_def starts_with_def all_digits_def negative_number_def
  cli_options_def option_tuples_def classify_arg_def cli_value_def set_opt_def
  finish_def parse_args_def

section \<open>Lemmas\<close>

lemma classify_long_option [simp]:
  "classify_arg ''--input'' = Known OptInput None"
  "classify_arg ''--output'' = Known OptOutput None"
  "classify_arg ''--help'' = Known OptHelp None"
  "classify_arg ''-h'' = Known OptHelp None"
  by (simp_all add: classify_arg_def cli_options_def)

lemma parse_args_Nil [simp]: "parse_args [] = CliRun default_input default_output"
  by (simp add: parse_args_def finish_def)

lemma classify_long_option_kind [simp]: "k \<noteq> OptHelp \<Longrightarrow> classify_arg (long_option k) = Known k None"
  by (cases k) simp_all

lemma long_option_not_separator [simp]: "long_option k \<noteq> ''--''"
  by (cases k) simp_all

lemma consume_options_append:
  assumes "\<forall>(k, v) \<in> set ps. k \<noteq> OptHelp \<and> cli_value v"
  shows "consume (concat (map (\<lambda>(k, v). [long_option k, v]) ps) @ rest) a extras =
           consume rest (fold (\<lambda>(k, v). set_opt k v) ps a) extras"
  using assms
proof (induction ps arbitrary: a)
  case (Cons p ps)
  obtain k v where p: "p = (k, v)"
    by fastforce
  with Cons.prems have k: "k \<noteq> OptHelp" and v: "v \<noteq> ''--''" "classify_arg v = Positional"
    by (auto simp: cli_value_def)
  have "consume (concat (map (\<lambda>(k, v). [long_option k, v]) ps) @ rest) (set_opt k v a) extras =
      consume rest (fold (\<lambda>(k, v). set_opt k v) ps (set_opt k v a)) extras"
    using Cons by (simp add: p)
  with k v show ?case
    by (cases k) (auto simp: p)
qed simp

lemma consume_options:
  "\<forall>(k, v) \<in> set ps. k \<noteq> OptHelp \<and> cli_value v \<Longrightarrow>
     consume (concat (map (\<lambda>(k, v). [long_option k, v]) ps)) a extras =
       finish (fold (\<lambda>(k, v). set_opt k v) ps a) extras"
  using consume_options_append [of ps "[]"] by simp

lemma options_not_ambiguous:
  assumes "\<forall>(k, v) \<in> set ps. k \<noteq> OptHelp \<and> cli_value v"
  shows "\<not> list_ex (\<lambda>x. classify_arg x = Ambiguous)
            (takeWhile (\<lambda>x. x \<noteq> ''--'') (concat (map (\<lambda>(k, v). [long_option k, v]) ps)))"
proof -
  have "classify_arg x \<noteq> Ambiguous" if "x \<in> set (concat (map (\<lambda>(k, v). [long_option k, v]) ps))" for x
    using that assms by (auto simp: cli_value_def)
  then show ?thesis
    by (auto simp: list_ex_iff dest: set_takeWhileD)
qed

lemma parse_args_input_output:
  "cli_value i \<Longrightarrow> cli_value o' \<Longrightarrow> parse_args [''--input'', i, ''--output'', o'] = CliRun i o'"
  using consume_options [of "[(OptInput, i), (OptOutput, o')]" "(default_input, default_output)" False]
        options_not_ambiguous [of "[(OptInput, i), (OptOutput, o')]"]
  by (simp add: parse_args_def finish_def set_opt_def)

lemma classify_attached:
  "k \<noteq> OptHelp \<Longrightarrow> classify_arg (long_option k @ ''='' @ v) = Known k (Some (False, v))"
  by (cases k) (simp_all add: classify_arg_def cli_options_def)

lemma classify_abbrev:
  assumes "k \<noteq> OptHelp" and "starts_with p (long_option k)" and "3 \<le> length p"
  shows "classify_arg p = Known k None"
proof -
  from assms(2) have p: "p = take (length p) (long_option k)"
    by (simp add: starts_with_def)
  then have "length p = length (take (length p) (long_option k))"
    by (rule arg_cong)
  then have le: "length p \<le> length (long_option k)"
    by simp
  have cls: "classify_arg (take n (long_option k)) = Known k None"
    if "3 \<le> n" and "n \<le> length (long_option k)" for n
  proof (cases k)
    case OptInput
    with that have "n = 3 \<or> n = 4 \<or> n = 5 \<or> n = 6 \<or> n = 7"
      by auto
    with OptInput show ?thesis
      by (elim disjE) (simp_all add: classify_arg_def cli_options_def option_tuples_def starts_with_def)
  next
    case OptOutput
    with that have "n = 3 \<or> n = 4 \<or> n = 5 \<or> n = 6 \<or> n = 7 \<or> n = 8"
      by auto
    with OptOutput show ?thesis
      by (elim disjE) (simp_all add: classify_arg_def cli_options_def option_tuples_def starts_with_def)
  qed (use assms(1) in simp)
  show ?thesis
    by (subst p) (rule cls [OF assms(3) le])
qed

lemma fold_set_opt:
  "\<forall>(k, v) \<in> set ps. k \<noteq> OptHelp \<Longrightarrow>
     fold (\<lambda>(k, v). set_opt k v) ps a =
       (last (fst a # [v. (k, v) \<leftarrow> ps, k = OptInput]), last (snd a # [v. (k, v) \<leftarrow> ps, k = OptOutput]))"
proof (induction ps arbitrary: a)
  case (Cons p ps)
  obtain k v where p: "p = (k, v)"
    by fastforce
  with Cons show ?case
    by (cases k) (auto simp: set_opt_def)
qed simp

section \<open>Properties of the command line\<close>

text \<open>
  C29. Refinement of the command line's contract: a command line made of
  \<open>--input V\<close> and \<open>--output V\<close> pairs, in any order and number, whose values
  are not option-like, runs the pipeline with the last value given for
  each option and the default for an option never given.
\<close>

theorem parse_args_options:
  assumes "\<forall>(k, v) \<in> set ps. k \<noteq> OptHelp \<and> cli_value v"
  shows "parse_args (concat (map (\<lambda>(k, v). [long_option k, v]) ps)) =
           CliRun (last (default_input # [v. (k, v) \<leftarrow> ps, k = OptInput]))
                  (last (default_output # [v. (k, v) \<leftarrow> ps, k = OptOutput]))"
proof -
  have "\<forall>(k, v) \<in> set ps. k \<noteq> OptHelp"
    using assms by auto
  then show ?thesis
    using consume_options [OF assms, of "(default_input, default_output)" False] options_not_ambiguous [OF assms]
    by (simp add: parse_args_def finish_def fold_set_opt)
qed

theorem parse_args_options_witness:
  "parse_args [''--input'', ''a.obj'', ''--output'', ''x.npz'', ''--input'', ''b.obj''] = CliRun ''b.obj'' ''x.npz''"
proof -
  let ?ps = "[(OptInput, ''a.obj''), (OptOutput, ''x.npz''), (OptInput, ''b.obj'')]"
  have h: "\<forall>(k, v) \<in> set ?ps. k \<noteq> OptHelp \<and> cli_value v"
    by (simp add: cli_value_def classify_arg_def)
  show ?thesis
    using parse_args_options [OF h] by simp
qed

text \<open>
  C30. Round trip of the attached form: \<open>--input=I --output=O\<close> runs the
  pipeline on \<open>I\<close> and \<open>O\<close> for every pair of strings, including empty
  ones and ones that look like options.
\<close>

theorem parse_args_attached:
  "parse_args [''--input='' @ i, ''--output='' @ o'] = CliRun i o'"
proof -
  have ci: "classify_arg (''--input='' @ i) = Known OptInput (Some (False, i))"
    using classify_attached [of OptInput i] by simp
  have co: "classify_arg (''--output='' @ o') = Known OptOutput (Some (False, o'))"
    using classify_attached [of OptOutput o'] by simp
  show ?thesis
    by (simp add: parse_args_def ci [simplified] co [simplified] set_opt_def finish_def)
qed

text \<open>
  C31. Abbreviations: any prefix of \<open>--input\<close> or \<open>--output\<close> of at least
  three characters (\<open>--i\<close>, \<open>--inp\<close>, \<open>--o\<close>, ...) acts as the full option.
\<close>

theorem parse_args_abbrev:
  assumes "k \<noteq> OptHelp" and "starts_with p (long_option k)" and "3 \<le> length p" and "cli_value v"
  shows "parse_args [p, v] = (if k = OptInput then CliRun v default_output else CliRun default_input v)"
proof -
  have p: "classify_arg p = Known k None"
    using assms(1-3) by (rule classify_abbrev)
  have np: "p \<noteq> ''--''"
    using assms(3) by auto
  from assms(4) have "v \<noteq> ''--''" and "classify_arg v = Positional"
    by (simp_all add: cli_value_def)
  with assms(1) p np show ?thesis
    by (cases k) (simp_all add: parse_args_def set_opt_def finish_def)
qed

theorem parse_args_abbrev_witness:
  "parse_args [''--out'', ''x.npz''] = CliRun ''airboat.obj'' ''x.npz''"
proof -
  have h1: "OptOutput \<noteq> OptHelp" by simp
  have h2: "starts_with ''--out'' (long_option OptOutput)" by (simp add: starts_with_def)
  have h3: "3 \<le> length ''--out''" by simp
  have h4: "cli_value ''x.npz''" by (simp add: cli_value_def classify_arg_def)
  show ?thesis
    using parse_args_abbrev [OF h1 h2 h3 h4] by (simp add: default_input_def)
qed

text \<open>
  C33. The \<open>--\<close> marker is never an option's value and, with no positional
  argument declared, is never accepted: after any sequence of
  \<open>--input V\<close>/\<open>--output V\<close> pairs, \<open>--\<close> (whatever follows it) and an
  option directly followed by \<open>--\<close> are usage errors.
\<close>

theorem parse_args_separator:
  assumes "\<forall>(k, v) \<in> set ps. k \<noteq> OptHelp \<and> cli_value v" and "k \<noteq> OptHelp"
  shows "parse_args (concat (map (\<lambda>(k, v). [long_option k, v]) ps) @ ''--'' # ys) = CliUsageError
    \<and> parse_args (concat (map (\<lambda>(k, v). [long_option k, v]) ps) @ long_option k # ''--'' # ys) = CliUsageError"
  using assms(2)
  by (cases k) (simp_all add: parse_args_def consume_options_append [OF assms(1)])

theorem parse_args_separator_witness:
  "parse_args [''--input'', ''x'', ''--''] = CliUsageError \<and> parse_args [''--input'', ''--'', ''x''] = CliUsageError"
proof -
  have h1: "\<forall>(k, v) \<in> set [(OptInput, ''x'')]. k \<noteq> OptHelp \<and> cli_value v"
    by (simp add: cli_value_def classify_arg_def)
  have h2: "\<forall>(k, v) \<in> set ([] :: (opt_kind \<times> string) list). k \<noteq> OptHelp \<and> cli_value v"
    by simp
  have h3: "OptInput \<noteq> OptHelp"
    by simp
  show ?thesis
    using parse_args_separator [OF h1 h3, of "[]"] parse_args_separator [OF h2 h3, of "[''x'']"] by simp
qed

text \<open>
  C34. \<open>-h\<close> with characters glued to it prints the help and exits with
  status 0 when the first glued character is not \<open>-\<close>, \<open>h\<close> or \<open>=\<close>
  (\<open>-hx\<close>, \<open>-hv\<close>): the rest of the word is set aside as an unknown option
  and the help action, already collected, runs first.
\<close>

theorem parse_args_help_glued:
  assumes "c \<notin> set ''-h=''"
    and "\<not> list_ex (\<lambda>x. classify_arg x = Ambiguous) (takeWhile (\<lambda>x. x \<noteq> ''--'') ys)"
  shows "parse_args ((CHR ''-'' # CHR ''h'' # c # e) # ys) = CliHelp"
proof -
  have c: "c \<noteq> CHR ''-''" "c \<noteq> CHR ''h''" "c \<noteq> CHR ''=''"
    using assms(1) by simp_all
  have cls: "classify_arg (CHR ''-'' # CHR ''h'' # c # e) = Known OptHelp (Some (True, c # e))"
    using c by (simp add: classify_arg_def cli_options_def option_tuples_def starts_with_def)
  show ?thesis
    using assms(2) c by (simp add: parse_args_def cls)
qed

theorem parse_args_help_glued_witness: "parse_args [''-hx''] = CliHelp"
proof -
  have h1: "CHR ''x'' \<notin> set ''-h=''"
    by simp
  have h2: "\<not> list_ex (\<lambda>x. classify_arg x = Ambiguous) (takeWhile (\<lambda>x. x \<noteq> ''--'') [])"
    by simp
  show ?thesis
    using parse_args_help_glued [OF h1 h2, of "[]"] by simp
qed

end
