(* ===== verification/Pipeline.thy ===== *)
theory Pipeline
  imports Loader Normalizer Dedup Serializer Cli
begin

text \<open>
  The driver \<open>preprocess_obj(input_path, output_path)\<close> (mixar_preprocess.py,
  lines 54--59), which runs the four stages in order and lets the first
  exception propagate, and the \<open>__main__\<close> block (lines 62--77), which reads
  the two command-line options and catches every exception of the run.
  Beside the functional model stands the spec's state machine (section 4.5)
  as an inductive step relation on the stage the run is in, with the data
  each stage hands to the next; the refinement lemmas show that its runs
  from \<open>S_Idle\<close> are exactly the results of \<open>preprocess_obj\<close>.
\<close>

section \<open>The driver\<close>

text \<open>
  Sequencing of two statements of the script: an exception raised by the
  first skips the second, with the world as the first left it.
\<close>

definition then_do ::
  "('e + 'a) \<times> world \<Rightarrow> ('a \<Rightarrow> world \<Rightarrow> ('e + 'b) \<times> world) \<Rightarrow> ('e + 'b) \<times> world" where
  "then_do r f = (case r of (Inl e, w) \<Rightarrow> (Inl e, w) | (Inr a, w) \<Rightarrow> f a w)"

text \<open>
  \<open>load_obj\<close> returns a float64 array (never \<open>None\<close>), which
  \<open>normalize_vertices\<close> receives as \<open>Some\<close>.
\<close>

definition preprocess_obj :: "parser \<Rightarrow> string \<Rightarrow> string \<Rightarrow> world \<Rightarrow> (py_error + unit) \<times> world" where
  "preprocess_obj parse input_path output_path w =
     then_do (load_obj parse input_path w) (\<lambda>(verts, faces) w1.
     then_do (normalize_vertices (Some verts) w1) (\<lambda>nverts w2.
     then_do (remove_duplicate_vertices nverts faces w2) (\<lambda>(uverts, ufaces) w3.
       (Inr (), save_processed_data uverts ufaces output_path w3))))"

text \<open>The default of \<open>output_path\<close> in the signature of \<open>preprocess_obj\<close>.\<close>

definition preprocess_default_output :: string where
  "preprocess_default_output = ''processed_model.npz''"

section \<open>The script\<close>

text \<open>
  The \<open>__main__\<close> block: the process's exit status is returned with the
  world.  A usage error exits with status 2 and \<open>-h\<close> prints the help and
  exits with status 0, both before the pipeline starts.  The \<open>try\<close>/\<open>except Exception\<close> of lines 73--77 turns every
  exception of the run into a printed report, and the script then ends
  normally, with status 0.
\<close>

definition main :: "parser \<Rightarrow> string list \<Rightarrow> world \<Rightarrow> world \<times> nat" where
  "main parse argv w =
     (case parse_args argv of
        CliUsageError \<Rightarrow> (w, 2)
      | CliHelp \<Rightarrow> (print_msg HelpText w, 0)
      | CliRun input output \<Rightarrow>
          (case preprocess_obj parse input output w of
             (Inr _, w') \<Rightarrow> (print_msg Completed w', 0)
           | (Inl e, w') \<Rightarrow> (print_msg (ErrorReport e) w', 0)))"

section \<open>The state machine of the spec\<close>

text \<open>
  The stage a run is in, with the data the previous stage produced.
\<close>

datatype stage =
    S_Idle
  | S_Loading
  | S_Normalizing "vertex list" "32 word tri list option"
  | S_Deduplicating varray "32 word tri list option"
  | S_Saving varray "int tri list option"
  | S_Done
  | S_Failed py_error

inductive pstep :: "parser \<Rightarrow> string \<Rightarrow> string \<Rightarrow> stage \<times> world \<Rightarrow> stage \<times> world \<Rightarrow> bool" where
  start: "pstep parse inp out (S_Idle, w) (S_Loading, w)"
| load_ok: "load_obj parse inp w = (Inr (vs, fs), w') \<Longrightarrow>
    pstep parse inp out (S_Loading, w) (S_Normalizing vs fs, w')"
| load_err: "load_obj parse inp w = (Inl e, w') \<Longrightarrow>
    pstep parse inp out (S_Loading, w) (S_Failed e, w')"
| norm_ok: "normalize_vertices (Some vs) w = (Inr nv, w') \<Longrightarrow>
    pstep parse inp out (S_Normalizing vs fs, w) (S_Deduplicating nv fs, w')"
| norm_err: "normalize_vertices (Some vs) w = (Inl e, w') \<Longrightarrow>
    pstep parse inp out (S_Normalizing vs fs, w) (S_Failed e, w')"
| dedup_ok: "remove_duplicate_vertices nv fs w = (Inr (uv, uf), w') \<Longrightarrow>
    pstep parse inp out (S_Deduplicating nv fs, w) (S_Saving uv uf, w')"
| dedup_err: "remove_duplicate_vertices nv fs w = (Inl e, w') \<Longrightarrow>
    pstep parse inp out (S_Deduplicating nv fs, w) (S_Failed e, w')"
| save: "pstep parse inp out (S_Saving uv uf, w) (S_Done, save_processed_data uv uf out w)"

fun terminal :: "stage \<Rightarrow> bool" where
  "terminal S_Done = True"
| "terminal (S_Failed _) = True"
| "terminal _ = False"

inductive_cases pstep_IdleE [elim!]: "pstep parse inp out (S_Idle, w) c"
inductive_cases pstep_LoadingE [elim!]: "pstep parse inp out (S_Loading, w) c"
inductive_cases pstep_NormalizingE [elim!]: "pstep parse inp out (S_Normalizing vs fs, w) c"
inductive_cases pstep_DeduplicatingE [elim!]: "pstep parse inp out (S_Deduplicating nv fs, w) c"
inductive_cases pstep_SavingE [elim!]: "pstep parse inp out (S_Saving uv uf, w) c"
inductive_cases pstep_DoneE [elim!]: "pstep parse inp out (S_Done, w) c"
inductive_cases pstep_FailedE [elim!]: "pstep parse inp out (S_Failed e, w) c"

lemmas pipeline_defs [mesh_simps] =
  then_do_def preprocess_obj_def main_def

section \<open>Lemmas\<close>

lemma then_do_Inl [simp]: "then_do (Inl e, w) f = (Inl e, w)"
  by (simp add: then_do_def)

lemma then_do_Inr [simp]: "then_do (Inr a, w) f = f a w"
  by (simp add: then_do_def)

lemma pstep_terminal: "terminal s \<Longrightarrow> \<not> pstep parse inp out (s, w) c"
  by (cases s) auto

lemma pstep_terminal': "terminal (fst c) \<Longrightarrow> \<not> pstep parse inp out c c'"
  by (cases c) (simp add: pstep_terminal)

lemma pstep_det: "pstep parse inp out c c1 \<Longrightarrow> pstep parse inp out c c2 \<Longrightarrow> c1 = c2"
  by (induction rule: pstep.induct) auto

lemma pstep_terminal_unique:
  assumes "(pstep parse inp out)\<^sup>*\<^sup>* c c1" and "(pstep parse inp out)\<^sup>*\<^sup>* c c2"
    and "terminal (fst c1)" and "terminal (fst c2)"
  shows "c1 = c2"
  using assms
proof (induction arbitrary: c2 rule: converse_rtranclp_induct)
  case base
  then show ?case
    by (auto elim: converse_rtranclpE dest: pstep_terminal')
next
  case (step c c')
  note IH = step.IH and cc' = step.hyps(1) and t1 = step.prems(2) and t2 = step.prems(3)
  from step.prems(1) show ?case
  proof (cases rule: converse_rtranclpE)
    case base
    with cc' t2 show ?thesis
      by (auto dest: pstep_terminal')
  next
    case (step c'')
    with pstep_det [OF cc'] have "c'' = c'"
      by blast
    with step IH t1 t2 show ?thesis
      by blast
  qed
qed

text \<open>The stage a result of \<open>preprocess_obj\<close> ends the state machine in.\<close>

lemmas pstep_one = r_into_rtranclp [where r = "pstep parse inp out" for parse inp out]

lemma run_Saving: "(pstep parse inp out)\<^sup>*\<^sup>* (S_Saving uv uf, w) (S_Done, save_processed_data uv uf out w)"
  by (rule r_into_rtranclp) (rule pstep.save)

lemma run_Deduplicating:
  assumes "then_do (remove_duplicate_vertices nv fs w) (\<lambda>(uv, uf) w3. (Inr (), save_processed_data uv uf out w3)) = (r, w')"
  shows "(pstep parse inp out)\<^sup>*\<^sup>* (S_Deduplicating nv fs, w) (case r of Inl e \<Rightarrow> S_Failed e | Inr _ \<Rightarrow> S_Done, w')"
proof (cases "remove_duplicate_vertices nv fs w")
  case (Pair r1 w1)
  show ?thesis
  proof (cases r1)
    case (Inl e)
    with Pair have "remove_duplicate_vertices nv fs w = (Inl e, w1)"
      by simp
    then have "(pstep parse inp out)\<^sup>*\<^sup>* (S_Deduplicating nv fs, w) (S_Failed e, w1)"
      by (intro pstep_one pstep.dedup_err)
    with Pair Inl assms show ?thesis
      by auto
  next
    case (Inr a)
    with Pair assms show ?thesis
      by (cases a) (auto intro: converse_rtranclp_into_rtranclp [where r = "pstep parse inp out", OF pstep.dedup_ok run_Saving])
  qed
qed

lemma run_Normalizing:
  assumes "then_do (normalize_vertices (Some vs) w) (\<lambda>nv w2.
             then_do (remove_duplicate_vertices nv fs w2) (\<lambda>(uv, uf) w3. (Inr (), save_processed_data uv uf out w3))) = (r, w')"
  shows "(pstep parse inp out)\<^sup>*\<^sup>* (S_Normalizing vs fs, w) (case r of Inl e \<Rightarrow> S_Failed e | Inr _ \<Rightarrow> S_Done, w')"
proof (cases "normalize_vertices (Some vs) w")
  case (Pair r1 w1)
  show ?thesis
  proof (cases r1)
    case (Inl e)
    with Pair have "normalize_vertices (Some vs) w = (Inl e, w1)"
      by simp
    then have "(pstep parse inp out)\<^sup>*\<^sup>* (S_Normalizing vs fs, w) (S_Failed e, w1)"
      by (intro pstep_one pstep.norm_err)
    with Pair Inl assms show ?thesis
      by auto
  next
    case (Inr nv)
    with Pair assms run_Deduplicating [of nv fs w1 out r w' parse inp] show ?thesis
      by (auto intro: converse_rtranclp_into_rtranclp [where r = "pstep parse inp out", OF pstep.norm_ok])
  qed
qed

lemma preprocess_obj_run:
  assumes "preprocess_obj parse inp out w = (r, w')"
  shows "(pstep parse inp out)\<^sup>*\<^sup>* (S_Idle, w) (case r of Inl e \<Rightarrow> S_Failed e | Inr _ \<Rightarrow> S_Done, w')"
proof (cases "load_obj parse inp w")
  case (Pair r1 w1)
  note start = converse_rtranclp_into_rtranclp [where r = "pstep parse inp out", OF pstep.start]
  show ?thesis
  proof (cases r1)
    case (Inl e)
    with Pair have "load_obj parse inp w = (Inl e, w1)"
      by simp
    then have "(pstep parse inp out)\<^sup>*\<^sup>* (S_Loading, w) (S_Failed e, w1)"
      by (intro pstep_one pstep.load_err)
    with Pair Inl assms show ?thesis
      by (auto simp: preprocess_obj_def intro!: start)
  next
    case (Inr a)
    obtain vs fs where a: "a = (vs, fs)"
      by fastforce
    with Pair Inr assms run_Normalizing [of vs w1 fs out r w' parse inp] show ?thesis
      by (auto simp: preprocess_obj_def intro!: start
                 intro: converse_rtranclp_into_rtranclp [where r = "pstep parse inp out", OF pstep.load_ok])
  qed
qed

lemma preprocess_obj_missing:
  "files w inp = None \<Longrightarrow>
     preprocess_obj parse inp out w = (Inl (FileNotFoundError (''File not found: '' @ inp)), w)"
  by (simp add: preprocess_obj_def load_obj_def)

lemma preprocess_obj_files:
  "preprocess_obj parse inp out w = (r, w') \<Longrightarrow>
     files w' = files w \<or>
     (\<exists>uv uf. files w' = (files w)(npz_path out \<mapsto> Npz [(''vertices'', F64Rows uv), (''faces'', to_npy_faces uf)]))"
  by (auto simp: preprocess_obj_def then_do_def save_processed_data_files split: prod.splits sum.splits
           dest!: load_obj_files normalize_vertices_files remove_duplicate_vertices_files; blast)

section \<open>Properties of the run\<close>

text \<open>
  C22. Refinement: the spec's state machine, started in \<open>S_Idle\<close>, reaches
  \<open>S_Done\<close> exactly when \<open>preprocess_obj\<close> returns normally, and
  \<open>S_Failed e\<close> exactly when it raises \<open>e\<close>, in the same final world.
\<close>

theorem preprocess_obj_refines_pstep:
  "((pstep parse inp out)\<^sup>*\<^sup>* (S_Idle, w) (S_Done, w') \<longleftrightarrow> preprocess_obj parse inp out w = (Inr (), w'))
   \<and> ((pstep parse inp out)\<^sup>*\<^sup>* (S_Idle, w) (S_Failed e, w') \<longleftrightarrow> preprocess_obj parse inp out w = (Inl e, w'))"
proof -
  obtain r w'' where P: "preprocess_obj parse inp out w = (r, w'')"
    by fastforce
  note run = preprocess_obj_run [OF P]
  have fin: "terminal (case r of Inl e \<Rightarrow> S_Failed e | Inr _ \<Rightarrow> S_Done)"
    by (cases r) simp_all
  have eq: "(s, w') = (case r of Inl e \<Rightarrow> S_Failed e | Inr _ \<Rightarrow> S_Done, w'')"
    if "(pstep parse inp out)\<^sup>*\<^sup>* (S_Idle, w) (s, w')" and "terminal s" for s w'
    using pstep_terminal_unique [OF that(1) run] that(2) fin by simp
  show ?thesis
    using P run eq [of S_Done w'] eq [of "S_Failed e" w'] by (cases r) auto
qed

theorem preprocess_obj_refines_pstep_witness:
  "(pstep (\<lambda>_ _. Inl (LoaderError ''unused'')) ''missing.obj'' ''out.npz'')\<^sup>*\<^sup>*
     (S_Idle, \<lparr>files = Map.empty, stdout = []\<rparr>)
     (S_Failed (FileNotFoundError ''File not found: missing.obj''), \<lparr>files = Map.empty, stdout = []\<rparr>)"
proof -
  have "preprocess_obj (\<lambda>_ _. Inl (LoaderError ''unused'')) ''missing.obj'' ''out.npz''
      \<lparr>files = Map.empty, stdout = []\<rparr> =
      (Inl (FileNotFoundError ''File not found: missing.obj''), \<lparr>files = Map.empty, stdout = []\<rparr>)"
    by (simp add: preprocess_obj_def load_obj_def)
  then show ?thesis
    using preprocess_obj_refines_pstep [of "\<lambda>_ _. Inl (LoaderError ''unused'')" "''missing.obj''" "''out.npz''"
        "\<lparr>files = Map.empty, stdout = []\<rparr>" "\<lparr>files = Map.empty, stdout = []\<rparr>"
        "FileNotFoundError ''File not found: missing.obj''"]
    by blast
qed

text \<open>
  C23. No partial output: when any stage raises, the run leaves every file
  as it found it; the archive is only written after all stages succeeded.
\<close>

theorem preprocess_obj_no_partial_output:
  assumes "preprocess_obj parse inp out w = (Inl e, w')"
  shows "files w' = files w"
  using assms by (auto simp: preprocess_obj_def then_do_def split: prod.splits sum.splits
                       dest!: load_obj_files normalize_vertices_files remove_duplicate_vertices_files)

theorem preprocess_obj_no_partial_output_witness:
  "preprocess_obj (\<lambda>_ _. Inr \<lparr>obj_vertices = Some [], obj_faces = None\<rparr>) ''empty.obj'' ''out.npz''
      \<lparr>files = [''empty.obj'' \<mapsto> Blob '''', ''out.npz'' \<mapsto> Blob ''old''], stdout = []\<rparr> =
    (Inl (ValueError ''No vertices to normalize''),
     \<lparr>files = [''empty.obj'' \<mapsto> Blob '''', ''out.npz'' \<mapsto> Blob ''old''], stdout = [Loading ''empty.obj'', Loaded 0 0]\<rparr>)
   \<and> files \<lparr>files = [''empty.obj'' \<mapsto> Blob '''', ''out.npz'' \<mapsto> Blob ''old''], stdout = [Loading ''empty.obj'', Loaded 0 0]\<rparr>
     = files \<lparr>files = [''empty.obj'' \<mapsto> Blob '''', ''out.npz'' \<mapsto> Blob ''old''], stdout = []\<rparr>"
proof -
  have run: "preprocess_obj (\<lambda>_ _. Inr \<lparr>obj_vertices = Some [], obj_faces = None\<rparr>) ''empty.obj'' ''out.npz''
      \<lparr>files = [''empty.obj'' \<mapsto> Blob '''', ''out.npz'' \<mapsto> Blob ''old''], stdout = []\<rparr> =
    (Inl (ValueError ''No vertices to normalize''),
     \<lparr>files = [''empty.obj'' \<mapsto> Blob '''', ''out.npz'' \<mapsto> Blob ''old''], stdout = [Loading ''empty.obj'', Loaded 0 0]\<rparr>)"
    by (simp add: preprocess_obj_def load_obj_def normalize_vertices_def print_msg_def)
  show ?thesis
    using run preprocess_obj_no_partial_output [OF run] by simp
qed

text \<open>
  C24. The spec's error scenario: run on a path that does not exist, the
  script reports FileNotFoundError, creates or overwrites no file, and
  exits with status 0.
\<close>

theorem main_missing_input:
  assumes "files w inp = None" and "cli_value inp" and "cli_value out"
  shows "main parse [''--input'', inp, ''--output'', out] w =
           (print_msg (ErrorReport (FileNotFoundError (''File not found: '' @ inp))) w, 0)"
  using assms by (simp add: main_def preprocess_obj_missing parse_args_input_output)

theorem main_missing_input_witness:
  "main (\<lambda>_ _. Inl (LoaderError ''unused'')) [''--input'', ''missing.obj'', ''--output'', ''out.npz'']
     \<lparr>files = [''out.npz'' \<mapsto> Blob ''old''], stdout = []\<rparr> =
   (\<lparr>files = [''out.npz'' \<mapsto> Blob ''old''],
     stdout = [ErrorReport (FileNotFoundError ''File not found: missing.obj'')]\<rparr>, 0)"
proof -
  have h1: "files \<lparr>files = [''out.npz'' \<mapsto> Blob ''old''], stdout = []\<rparr> ''missing.obj'' = None"
    by simp
  have h2: "cli_value ''missing.obj''"
    by (simp add: cli_value_def classify_arg_def)
  have h3: "cli_value ''out.npz''"
    by (simp add: cli_value_def classify_arg_def)
  show ?thesis
    using main_missing_input [OF h1 h2 h3, of "\<lambda>_ _. Inl (LoaderError ''unused'')"]
    by (simp add: print_msg_def)
qed

text \<open>
  C25. The exit status never reports a failed run: it is 2 for a
  command line argparse rejects and 0 otherwise (help included), whatever
  the pipeline did.  The spec asks for a non-zero status on failure.
\<close>

theorem main_exit_status:
  "snd (main parse argv w) = (if parse_args argv = CliUsageError then 2 else 0)"
proof (cases "parse_args argv")
  case (CliRun inp out)
  obtain r w' where P: "preprocess_obj parse inp out w = (r, w')"
    by fastforce
  with CliRun show ?thesis
    by (cases r) (simp_all add: main_def)
qed (simp_all add: main_def)

lemma map_tri_sint_comp:
  "map (map_tri (\<lambda>i. g (sint i))) fs = map (map_tri g) (map (map_tri sint) fs)"
  by simp

text \<open>
  C26. End to end on a well-formed mesh: for an input file that parses to
  a non-empty vertex array whose bounding box is not a single point, with
  faces indexing it and at most \<open>2^31\<close> vertices, the run succeeds; the
  archive written at the output path holds the sorted distinct rounded
  normalised rows and faces that index them, each face naming the rounded
  normalised vertices the input face named; the five progress messages are
  printed in order.
\<close>

theorem preprocess_obj_success:
  assumes "files w inp = Some f" and "parse inp f = Inr mesh"
    and "obj_vertices mesh = Some vs" and "obj_faces mesh = Some fs"
    and "faces_in_range (length vs) fs" and "length vs \<le> 2 ^ 31"
    and "vs \<noteq> []" and "0 < max_extent vs"
  shows "let nv = map (\<lambda>v. map_tri (\<lambda>x. x / max_extent vs) (zip_tri (-) v (bbox_center vs))) vs;
             u = sorted_list_of_set (set (np_round 6 nv)) in
     \<exists>uf w'. preprocess_obj parse inp out w = (Inr (), w')
       \<and> files w' = (files w)(npz_path out \<mapsto> Npz [(''vertices'', F64Rows (Rows u)), (''faces'', IntRows uf)])
       \<and> faces_in_range (length u) uf
       \<and> map (map_tri (\<lambda>i. u ! nat i)) uf = map (map_tri (\<lambda>i. np_round 6 nv ! nat i)) fs
       \<and> stdout w' = stdout w @ [Loading inp, Loaded (length vs) (length fs), Normalized,
                                Removed (int (length vs) - int (length u)), Saved out]"
proof -
  define nv where "nv = map (\<lambda>v. map_tri (\<lambda>x. x / max_extent vs) (zip_tri (-) v (bbox_center vs))) vs"
  define u where "u = sorted_list_of_set (set (np_round 6 nv))"
  define fs32 where "fs32 = map (map_tri int32_of) fs"
  define uf where "uf = map (map_tri (\<lambda>i. snd (unique_ref (np_round 6 nv)) ! nat (sint i))) fs32"
  define w1 where "w1 = print_msg (Loaded (length vs) (length fs)) (print_msg (Loading inp) w)"
  have rt: "map (map_tri sint) fs32 = fs"
    unfolding fs32_def using assms(5,6) by (rule int32_faces_roundtrip)
  have load: "load_obj parse inp w = (Inr (vs, Some fs32), w1)"
    unfolding fs32_def w1_def using assms(1-4) by (rule load_obj_ok)
  have norm: "normalize_vertices (Some vs) w1 = (Inr (Rows nv), print_msg Normalized w1)"
    unfolding nv_def using assms(7,8) by (rule normalize_vertices_Rows)
  have inr: "faces_in_range (length nv) (map (map_tri sint) fs32)"
    using assms(5) by (simp add: rt nv_def)
  note dd = remove_duplicate_vertices_Some [OF inr, folded u_def uf_def]
  let ?w' = "save_processed_data (Rows u) (Some uf) out
               (print_msg (Removed (int (length nv) - int (length u))) (print_msg Normalized w1))"
  have run: "preprocess_obj parse inp out w = (Inr (), ?w')"
    by (simp add: preprocess_obj_def load norm dd(1))
  have geo: "map (map_tri (\<lambda>i. u ! nat i)) uf = map (map_tri (\<lambda>i. np_round 6 nv ! nat i)) fs"
    using dd(3) by (simp only: map_tri_sint_comp [of "\<lambda>i. np_round 6 nv ! nat i"] rt)
  have "files ?w' = (files w)(npz_path out \<mapsto> Npz [(''vertices'', F64Rows (Rows u)), (''faces'', IntRows uf)])"
    by (simp add: save_processed_data_files to_npy_faces_def w1_def)
  moreover have "stdout ?w' = stdout w @ [Loading inp, Loaded (length vs) (length fs), Normalized,
                                Removed (int (length vs) - int (length u)), Saved out]"
    by (simp add: w1_def nv_def)
  ultimately show ?thesis
    unfolding Let_def nv_def [symmetric] u_def [symmetric]
    using run dd(2) geo by blast
qed

theorem preprocess_obj_success_witness:
  "\<exists>uf w'. preprocess_obj (\<lambda>_ _. Inr \<lparr>obj_vertices = Some [(0, 0, 0), (1, 0, 0), (0, 1, 0)], obj_faces = Some [(0, 1, 2)]\<rparr>)
       ''tri.obj'' ''tri.npz'' \<lparr>files = [''tri.obj'' \<mapsto> Blob ''f 1 2 3''], stdout = []\<rparr> = (Inr (), w')
     \<and> files w' ''tri.npz'' =
         Some (Npz [(''vertices'', F64Rows (Rows [(- 1 / 2, - 1 / 2, 0), (- 1 / 2, 1 / 2, 0), (1 / 2, - 1 / 2, 0)])),
                    (''faces'', IntRows uf)])
     \<and> faces_in_range 3 uf"
proof -
  let ?vs = "[(0, 0, 0), (1, 0, 0), (0, 1, 0)] :: vertex list"
  let ?m = "\<lparr>obj_vertices = Some ?vs, obj_faces = Some [(0, 1, 2)]\<rparr>"
  let ?w = "\<lparr>files = [''tri.obj'' \<mapsto> Blob ''f 1 2 3''], stdout = []\<rparr>"
  have h1: "files ?w ''tri.obj'' = Some (Blob ''f 1 2 3'')" by simp
  have h2: "(\<lambda>_ _. Inr ?m) ''tri.obj'' (Blob ''f 1 2 3'') = (Inr ?m :: py_error + mesh_obj)" by simp
  have h3: "obj_vertices ?m = Some ?vs" by simp
  have h4: "obj_faces ?m = Some [(0, 1, 2)]" by simp
  have h5: "faces_in_range (length ?vs) [(0, 1, 2)]" by (simp add: faces_in_range_def)
  have h6: "length ?vs \<le> 2 ^ 31" by simp
  have h7: "?vs \<noteq> []" by simp
  have me: "max_extent ?vs = 1"
    by (simp add: max_extent_def extent_def axis_min_def axis_max_def)
  have h8: "0 < max_extent ?vs" by (simp add: me)
  have bc: "bbox_center ?vs = (1 / 2, 1 / 2, 0)"
    by (simp add: bbox_center_def np_min_axis0_def np_max_axis0_def)
  have nv: "map (\<lambda>v. map_tri (\<lambda>x. x / max_extent ?vs) (zip_tri (-) v (bbox_center ?vs))) ?vs =
      [(- 1 / 2, - 1 / 2, 0), (1 / 2, - 1 / 2, 0), (- 1 / 2, 1 / 2, 0)]"
    by (simp add: me bc)
  have u: "sorted_list_of_set (set (np_round 6 [(- 1 / 2, - 1 / 2, 0), (1 / 2, - 1 / 2, 0), (- 1 / 2, 1 / 2, 0)])) =
      [(- 1 / 2, - 1 / 2, 0), (- 1 / 2, 1 / 2, 0), (1 / 2, - 1 / 2, 0)]"
    by code_simp
  note c = preprocess_obj_success [OF h1 h2 h3 h4 h5 h6 h7 h8, of "''tri.npz''"]
  show ?thesis
    using c unfolding Let_def nv u by (auto simp: npz_path_def ends_with_def numeral_3_eq_3)
qed

text \<open>
  C17. End to end on a mesh with fewer than \<open>2^32\<close> vertices: the int32
  cast of the faces wraps every index \<open>i \<ge> 2^31\<close> to \<open>i - 2^32\<close>, which
  NumPy's indexing reads from the end of the inverse array.  The run still
  succeeds, but each such face entry of the archive names the rounded
  normalised vertex at position \<open>i + n - 2^32\<close> of the \<open>n\<close> input vertices
  instead of vertex \<open>i\<close>; entries below \<open>2^31\<close> name vertex \<open>i\<close>.
\<close>

theorem preprocess_obj_wrapped_faces:
  assumes "files w inp = Some f" and "parse inp f = Inr mesh"
    and "obj_vertices mesh = Some vs" and "obj_faces mesh = Some fs"
    and "faces_in_range (length vs) fs" and "length vs < 2 ^ 32"
    and "vs \<noteq> []" and "0 < max_extent vs"
  shows "let nv = map (\<lambda>v. map_tri (\<lambda>x. x / max_extent vs) (zip_tri (-) v (bbox_center vs))) vs;
             u = sorted_list_of_set (set (np_round 6 nv)) in
     \<exists>uf w'. preprocess_obj parse inp out w = (Inr (), w')
       \<and> files w' = (files w)(npz_path out \<mapsto> Npz [(''vertices'', F64Rows (Rows u)), (''faces'', IntRows uf)])
       \<and> faces_in_range (length u) uf
       \<and> map (map_tri (\<lambda>i. u ! nat i)) uf =
           map (map_tri (\<lambda>i. np_round 6 nv ! nat (if i < 2 ^ 31 then i else i + int (length vs) - 2 ^ 32))) fs"
proof -
  define nv where "nv = map (\<lambda>v. map_tri (\<lambda>x. x / max_extent vs) (zip_tri (-) v (bbox_center vs))) vs"
  define u where "u = sorted_list_of_set (set (np_round 6 nv))"
  define fs32 where "fs32 = map (map_tri int32_of) fs"
  define w1 where "w1 = print_msg (Loaded (length vs) (length fs)) (print_msg (Loading inp) w)"
  have n: "int (length vs) < 2 ^ 32"
    using assms(6) by (metis of_nat_less_iff of_nat_numeral of_nat_power)
  have c: "- int (length vs) \<le> sint (int32_of i) \<and> sint (int32_of i) < int (length vs)
      \<and> py_pos (length vs) (sint (int32_of i)) = (if i < 2 ^ 31 then i else i + int (length vs) - 2 ^ 32)"
    if "t \<in> set fs" and "i \<in> set (tri_list t)" for t i
    using assms(5) that n by (intro int32_py_pos) (auto simp: faces_in_range_def)
  have load: "load_obj parse inp w = (Inr (vs, Some fs32), w1)"
    unfolding fs32_def w1_def using assms(1-4) by (rule load_obj_ok)
  have norm: "normalize_vertices (Some vs) w1 = (Inr (Rows nv), print_msg Normalized w1)"
    unfolding nv_def using assms(7,8) by (rule normalize_vertices_Rows)
  have py: "\<forall>t \<in> set fs32. \<forall>i \<in> set (tri_list t). - int (length nv) \<le> sint i \<and> sint i < int (length nv)"
    using c by (auto simp: fs32_def nv_def)
  define uf where "uf = map (map_tri (\<lambda>i. snd (unique_ref (np_round 6 nv)) ! nat (py_pos (length nv) (sint i)))) fs32"
  note dd = remove_duplicate_vertices_py(1) [OF py, of "print_msg Normalized w1", folded u_def uf_def]
    remove_duplicate_vertices_py(2,3) [OF py, folded u_def uf_def]
  let ?w' = "save_processed_data (Rows u) (Some uf) out
               (print_msg (Removed (int (length nv) - int (length u))) (print_msg Normalized w1))"
  have run: "preprocess_obj parse inp out w = (Inr (), ?w')"
    by (simp add: preprocess_obj_def load norm dd(1))
  have "map (map_tri (\<lambda>i. np_round 6 nv ! nat (py_pos (length nv) (sint i)))) fs32 =
      map (map_tri (\<lambda>i. np_round 6 nv ! nat (if i < 2 ^ 31 then i else i + int (length vs) - 2 ^ 32))) fs"
    using c by (auto simp: fs32_def nv_def intro!: map_tri_cong)
  then have geo: "map (map_tri (\<lambda>i. u ! nat i)) uf =
      map (map_tri (\<lambda>i. np_round 6 nv ! nat (if i < 2 ^ 31 then i else i + int (length vs) - 2 ^ 32))) fs"
    using dd(3) by simp
  have "files ?w' = (files w)(npz_path out \<mapsto> Npz [(''vertices'', F64Rows (Rows u)), (''faces'', IntRows uf)])"
    by (simp add: save_processed_data_files to_npy_faces_def w1_def)
  then show ?thesis
    unfolding Let_def nv_def [symmetric] u_def [symmetric]
    using run dd(2) geo by blast
qed

theorem preprocess_obj_wrapped_faces_witness:
  "\<exists>uf w'. preprocess_obj (\<lambda>_ _. Inr \<lparr>obj_vertices = Some [(0, 0, 0), (1, 0, 0), (0, 1, 0)], obj_faces = Some [(0, 1, 2)]\<rparr>)
       ''tri.obj'' ''tri.npz'' \<lparr>files = [''tri.obj'' \<mapsto> Blob ''f 1 2 3''], stdout = []\<rparr> = (Inr (), w')
     \<and> files w' ''tri.npz'' =
         Some (Npz [(''vertices'', F64Rows (Rows [(- 1 / 2, - 1 / 2, 0), (- 1 / 2, 1 / 2, 0), (1 / 2, - 1 / 2, 0)])),
                    (''faces'', IntRows uf)])
     \<and> faces_in_range 3 uf"
proof -
  let ?vs = "[(0, 0, 0), (1, 0, 0), (0, 1, 0)] :: vertex list"
  let ?m = "\<lparr>obj_vertices = Some ?vs, obj_faces = Some [(0, 1, 2)]\<rparr>"
  let ?w = "\<lparr>files = [''tri.obj'' \<mapsto> Blob ''f 1 2 3''], stdout = []\<rparr>"
  have h1: "files ?w ''tri.obj'' = Some (Blob ''f 1 2 3'')" by simp
  have h2: "(\<lambda>_ _. Inr ?m) ''tri.obj'' (Blob ''f 1 2 3'') = (Inr ?m :: py_error + mesh_obj)" by simp
  have h3: "obj_vertices ?m = Some ?vs" by simp
  have h4: "obj_faces ?m = Some [(0, 1, 2)]" by simp
  have h5: "faces_in_range (length ?vs) [(0, 1, 2)]" by (simp add: faces_in_range_def)
  have h6: "length ?vs < 2 ^ 32" by simp
  have h7: "?vs \<noteq> []" by simp
  have me: "max_extent ?vs = 1"
    by (simp add: max_extent_def extent_def axis_min_def axis_max_def)
  have h8: "0 < max_extent ?vs" by (simp add: me)
  have bc: "bbox_center ?vs = (1 / 2, 1 / 2, 0)"
    by (simp add: bbox_center_def np_min_axis0_def np_max_axis0_def)
  have nv: "map (\<lambda>v. map_tri (\<lambda>x. x / max_extent ?vs) (zip_tri (-) v (bbox_center ?vs))) ?vs =
      [(- 1 / 2, - 1 / 2, 0), (1 / 2, - 1 / 2, 0), (- 1 / 2, 1 / 2, 0)]"
    by (simp add: me bc)
  have u: "sorted_list_of_set (set (np_round 6 [(- 1 / 2, - 1 / 2, 0), (1 / 2, - 1 / 2, 0), (- 1 / 2, 1 / 2, 0)])) =
      [(- 1 / 2, - 1 / 2, 0), (- 1 / 2, 1 / 2, 0), (1 / 2, - 1 / 2, 0)]"
    by code_simp
  note c = preprocess_obj_wrapped_faces [OF h1 h2 h3 h4 h5 h6 h7 h8, of "''tri.npz''"]
  show ?thesis
    using c unfolding Let_def nv u by (auto simp: npz_path_def ends_with_def numeral_3_eq_3)
qed

text \<open>
  C27. The spec's degenerate scenario, end to end: a mesh of at most 16
  vertices that all coincide is not rejected.  The script runs to
  completion, prints the success message, exits with status 0, and writes
  an archive whose vertex array is all NaN, one row per input vertex, with
  the faces unchanged.  The spec requires a DegenerateMesh failure.  (The
  bound is that of NumPy's sort keeping the NaN rows in place, see
  \<open>unique_rows\<close>; for more rows the faces are permuted.)
\<close>

theorem main_degenerate_mesh:
  assumes "files w inp = Some f" and "parse inp f = Inr mesh"
    and "obj_vertices mesh = Some vs" and "obj_faces mesh = Some fs" and "set vs = {v}"
    and "faces_in_range (length vs) fs" and "length vs \<le> 16"
    and "cli_value inp" and "cli_value out"
  shows "\<exists>w'. main parse [''--input'', inp, ''--output'', out] w = (w', 0)
     \<and> files w' = (files w)(npz_path out \<mapsto> Npz [(''vertices'', F64Rows (NaNRows (length vs))), (''faces'', IntRows fs)])
     \<and> stdout w' = stdout w @ [Loading inp, Loaded (length vs) (length fs), Normalized, Removed 0, Saved out, Completed]"
proof -
  define fs32 where "fs32 = map (map_tri int32_of) fs"
  define w1 where "w1 = print_msg (Loaded (length vs) (length fs)) (print_msg (Loading inp) w)"
  have ne: "vs \<noteq> []"
    using assms(5) by auto
  have "length vs \<le> 2 ^ 31"
    using assms(7) by simp
  then have rt: "map (map_tri sint) fs32 = fs"
    unfolding fs32_def using assms(6) by (intro int32_faces_roundtrip)
  have load: "load_obj parse inp w = (Inr (vs, Some fs32), w1)"
    unfolding fs32_def w1_def using assms(1-4) by (rule load_obj_ok)
  have norm: "normalize_vertices (Some vs) w1 = (Inr (NaNRows (length vs)), print_msg Normalized w1)"
    using ne max_extent_single [OF assms(5)] by (rule normalize_vertices_flat)
  have inr: "faces_in_range (length vs) (map (map_tri sint) fs32)"
    using assms(6) by (simp add: rt)
  note dd = remove_duplicate_vertices_NaNRows [OF inr assms(7), of "print_msg Normalized w1", unfolded rt]
  let ?w' = "save_processed_data (NaNRows (length vs)) (Some fs) out (print_msg (Removed 0) (print_msg Normalized w1))"
  have run: "preprocess_obj parse inp out w = (Inr (), ?w')"
    by (simp add: preprocess_obj_def load norm dd)
  show ?thesis
    using assms(8,9)
    by (simp add: main_def run save_processed_data_files to_npy_faces_def w1_def parse_args_input_output)
qed

theorem main_degenerate_mesh_witness:
  "\<exists>w'. main (\<lambda>_ _. Inr \<lparr>obj_vertices = Some [(3, 1, 2), (3, 1, 2)], obj_faces = Some [(0, 1, 1)]\<rparr>)
       [''--input'', ''flat.obj'', ''--output'', ''flat.npz''] \<lparr>files = [''flat.obj'' \<mapsto> Blob ''v 3 1 2''], stdout = []\<rparr> = (w', 0)
     \<and> files w' ''flat.npz'' = Some (Npz [(''vertices'', F64Rows (NaNRows 2)), (''faces'', IntRows [(0, 1, 1)])])
     \<and> last (stdout w') = Completed"
proof -
  let ?vs = "[(3, 1, 2), (3, 1, 2)] :: vertex list"
  let ?m = "\<lparr>obj_vertices = Some ?vs, obj_faces = Some [(0, 1, 1)]\<rparr>"
  let ?w = "\<lparr>files = [''flat.obj'' \<mapsto> Blob ''v 3 1 2''], stdout = []\<rparr>"
  have h1: "files ?w ''flat.obj'' = Some (Blob ''v 3 1 2'')" by simp
  have h2: "(\<lambda>_ _. Inr ?m) ''flat.obj'' (Blob ''v 3 1 2'') = (Inr ?m :: py_error + mesh_obj)" by simp
  have h3: "obj_vertices ?m = Some ?vs" by simp
  have h4: "obj_faces ?m = Some [(0, 1, 1)]" by simp
  have h5: "set ?vs = {(3, 1, 2)}" by simp
  have h6: "faces_in_range (length ?vs) [(0, 1, 1)]" by (simp add: faces_in_range_def)
  have h7: "length ?vs \<le> 16" by simp
  have h8: "cli_value ''flat.obj''" by (simp add: cli_value_def classify_arg_def)
  have h9: "cli_value ''flat.npz''" by (simp add: cli_value_def classify_arg_def)
  show ?thesis
    using main_degenerate_mesh [OF h1 h2 h3 h4 h5 h6 h7 h8 h9]
    by (auto simp: npz_path_def ends_with_def numeral_2_eq_2)
qed

text \<open>
  C28. The only file a run of the script changes holds a processed
  archive: the two named arrays \<open>vertices\<close> (float rows) and \<open>faces\<close>
  (integer rows or the "no faces" marker).
\<close>

theorem main_output_typed:
  assumes "main parse argv w = (w', st)" and "files w' q \<noteq> files w q"
  shows "\<exists>es. files w' q = Some (Npz es) \<and> processed_archive es"
proof (cases "parse_args argv")
  case (CliRun inp out)
  obtain r w'' where P: "preprocess_obj parse inp out w = (r, w'')"
    by fastforce
  have "files w' = files w''"
    using assms(1) CliRun P by (cases r) (auto simp: main_def)
  with preprocess_obj_files [OF P] assms(2) show ?thesis
    by (auto split: if_splits)
qed (use assms in \<open>auto simp: main_def\<close>)

theorem main_output_typed_witness:
  "main (\<lambda>_ _. Inr \<lparr>obj_vertices = Some [(1, 2, 3)], obj_faces = None\<rparr>) []
      \<lparr>files = [''airboat.obj'' \<mapsto> Blob ''v 1 2 3''], stdout = []\<rparr> =
     (\<lparr>files = [''airboat.obj'' \<mapsto> Blob ''v 1 2 3'',
                 ''processed_airboat.npz'' \<mapsto> Npz [(''vertices'', F64Rows (NaNRows 1)), (''faces'', ObjectNone)]],
       stdout = [Loading ''airboat.obj'', Loaded 1 0, Normalized, Removed 0, Saved ''processed_airboat.npz'', Completed]\<rparr>, 0)
   \<and> (\<exists>es. [''airboat.obj'' \<mapsto> Blob ''v 1 2 3'',
                 ''processed_airboat.npz'' \<mapsto> Npz [(''vertices'', F64Rows (NaNRows 1)), (''faces'', ObjectNone)]]
             ''processed_airboat.npz'' = Some (Npz es) \<and> processed_archive es)"
proof -
  let ?P = "\<lambda>_ _. Inr \<lparr>obj_vertices = Some [(1 :: real, 2 :: real, 3 :: real)], obj_faces = None\<rparr>"
  let ?w = "\<lparr>files = [''airboat.obj'' \<mapsto> Blob ''v 1 2 3''], stdout = []\<rparr>"
  let ?w' = "\<lparr>files = [''airboat.obj'' \<mapsto> Blob ''v 1 2 3'',
                 ''processed_airboat.npz'' \<mapsto> Npz [(''vertices'', F64Rows (NaNRows 1)), (''faces'', ObjectNone)]],
       stdout = [Loading ''airboat.obj'', Loaded 1 0, Normalized, Removed 0, Saved ''processed_airboat.npz'', Completed]\<rparr>"
  have ms: "max_extent [(1 :: real, 2 :: real, 3 :: real)] = 0"
    by (rule max_extent_single [of _ "(1, 2, 3)"]) simp
  have norm: "normalize_vertices (Some [(1, 2, 3)]) w1 = (Inr (NaNRows 1), print_msg Normalized w1)" for w1
    using normalize_vertices_flat [OF _ ms, of w1] by simp
  have run: "main ?P [] ?w = (?w', 0)"
    by (simp add: main_def default_input_def default_output_def preprocess_obj_def load_obj_def norm
        remove_duplicate_vertices_def round_rows_def unique_rows_def take_faces_def
        save_processed_data_def np_savez_def npz_path_def ends_with_def to_npy_faces_def print_msg_def)
  have ch: "files ?w' ''processed_airboat.npz'' \<noteq> files ?w ''processed_airboat.npz''"
    by simp
  show ?thesis
    using run main_output_typed [OF run ch] by simp
qed

text \<open>
  C32. \<open>-h\<close> first on the command line prints the help and exits with
  status 0 before anything else happens: no file is read or written, even
  when later words would be usage errors.  Only an ambiguous abbreviation,
  which argparse rejects while classifying the words, comes before it.
\<close>

theorem main_help:
  assumes "\<not> list_ex (\<lambda>x. classify_arg x = Ambiguous) (takeWhile (\<lambda>x. x \<noteq> ''--'') rest)"
  shows "main parse (''-h'' # rest) w = (print_msg HelpText w, 0)"
  using assms by (simp add: main_def parse_args_def)

theorem main_help_witness:
  "main (\<lambda>_ _. Inl (LoaderError ''unused'')) [''-h'', ''--bogus'', ''--input''] \<lparr>files = Map.empty, stdout = []\<rparr> =
     (\<lparr>files = Map.empty, stdout = [HelpText]\<rparr>, 0)"
proof -
  have h: "\<not> list_ex (\<lambda>x. classify_arg x = Ambiguous) (takeWhile (\<lambda>x. x \<noteq> ''--'') [''--bogus'', ''--input''])"
    by (simp add: classify_arg_def cli_options_def option_tuples_def starts_with_def negative_number_def)
  show ?thesis
    using main_help [OF h, of "\<lambda>_ _. Inl (LoaderError ''unused'')" "\<lparr>files = Map.empty, stdout = []\<rparr>"]
    by (simp add: print_msg_def)
qed

end
