(* ===== verification/Spec2Isabelle.thy ===== *)
theory Spec2Isabelle
  imports Pipeline
begin

text \<open>
  \<^bold>\<open>Verification development of the MixAR OBJ preprocessing script\<close>
  (src/mixar_preprocessing_solution/mixar_preprocess.py).

  \<^bold>\<open>The program.\<close>  One Python script with four stages run in sequence by
  \<open>preprocess_obj\<close> (lines 54--59): \<open>load_obj\<close> (6--21) checks that the input
  path exists, parses it with trimesh and converts vertices to float64 and
  faces to int32; \<open>normalize_vertices\<close> (24--36) centres the bounding box
  on the origin and divides by its largest extent; \<open>remove_duplicate_vertices\<close>
  (39--45) rounds to 6 decimals, merges equal rows with
  \<open>np.unique(axis=0, return_inverse=True)\<close> and rewrites the faces through
  the inverse; \<open>save_processed_data\<close> (48--51) writes an \<open>.npz\<close> archive.
  The \<open>__main__\<close> block (62--77) parses \<open>--input\<close>/\<open>--output\<close> and catches
  every exception of the run.  Each stage prints a progress line.

  \<^bold>\<open>Theories.\<close>
  \<^item> \<open>Prelude\<close>: the shared types.  A float64 array of shape \<open>(n, 3)\<close> is a
    list of \<open>real\<close> triples (\<open>vertex\<close>), or \<open>NaNRows n\<close> for the all-NaN
    array a zero scale produces (\<open>varray\<close>); Python exceptions are the
    datatype \<open>py_error\<close> and every fallible operation returns
    \<open>py_error + 'a\<close>; the script's effects are explicit state passing of a
    \<open>world\<close> record (file system \<open>files\<close> as a map from paths to
    \<open>fs_entry\<close>, standard output \<open>stdout\<close> as a list of \<open>msg\<close>, one
    constructor per \<open>print\<close>).  \<open>py_index\<close> is Python/NumPy indexing with
    negative indices; \<open>traverse\<close> applies a fallible operation elementwise;
    \<open>faces_in_range\<close> is the spec's mesh invariant.
  \<^item> \<open>Loader\<close>: \<open>load_obj\<close>, with trimesh as a parameter \<open>parse\<close> (so every
    lemma holds for any parser) and the int32 cast as \<open>word_of_int\<close> into
    \<open>32 word\<close> (\<open>int32_of\<close>), read back with \<open>sint\<close>.
  \<^item> \<open>Normalizer\<close>: \<open>normalize_vertices\<close> with NumPy's reductions
    (\<open>np_min_axis0\<close>, \<open>np_max_axis0\<close>, \<open>np_max_row\<close>), \<open>bbox_center\<close>,
    \<open>bbox_scale\<close> and \<open>divide_rows\<close>; beside them the spec's bounding box
    (\<open>axis_min\<close>, \<open>axis_max\<close>, \<open>extent\<close>, \<open>max_extent\<close>).
  \<^item> \<open>Rounding\<close>: \<open>np.round\<close> as \<open>rint (x * 10^k) / 10^k\<close> with
    round-half-to-even \<open>rint\<close>.
  \<^item> \<open>Unique\<close>: the contract of \<open>np.unique\<close> (\<open>unique_ref\<close>: sorted distinct
    rows, each row's position among them) and NumPy's \<open>_unique1d\<close>
    algorithm (\<open>argsort\<close>, \<open>change_mask\<close>, \<open>cumsum_from\<close>, \<open>scatter\<close>,
    \<open>unique_with_perm\<close>); for all-NaN rows, which NumPy's sort compares
    as equal, the permutation NumPy's generic quicksort
    (\<open>npy_aquicksort\<close>) produces on equal keys (\<open>npy_swap\<close>,
    \<open>aq_partition\<close>, \<open>aq_loop\<close>, \<open>nan_argsort\<close>) and the inverse it gives
    (\<open>nan_unique_inverse\<close>).
  \<^item> \<open>Dedup\<close>: \<open>remove_duplicate_vertices\<close>, with \<open>inverse_indices[faces]\<close> as
    \<open>take_faces\<close> (negative indices wrap, others raise IndexError).
  \<^item> \<open>Serializer\<close>: \<open>save_processed_data\<close> and what \<open>np.savez\<close> does to the
    file system (\<open>npz_path\<close> appends \<open>.npz\<close>, \<open>to_npy_faces\<close> stores \<open>None\<close>
    as an object array); the reader \<open>np_load\<close>/\<open>npz_get\<close>/\<open>read_processed\<close>
    and \<open>processed_archive\<close> are modelled from NumPy's documentation and the
    spec, since they are not code of the repository.
  \<^item> \<open>Cli\<close>: the argparse parser of lines 65--71 (\<open>parse_args\<close>): each
    word classified as argparse's \<open>_parse_optional\<close> does (\<open>classify_arg\<close>,
    with abbreviations \<open>option_tuples\<close>, attached \<open>=VALUE\<close> or glued
    characters, and negative numbers), then consumed left to right
    (\<open>consume\<close>): an option takes exactly the next value word, \<open>-h\<close> exits
    at once (\<open>help_glued\<close> for characters glued to it), \<open>--\<close> and left-over
    words are a usage error.
  \<^item> \<open>Pipeline\<close>: \<open>preprocess_obj\<close> (statements sequenced by \<open>then_do\<close>, the
    first exception skipping the rest), \<open>main\<close> on the result of
    \<open>parse_args\<close>, and the spec's state machine (section 4.5) as the
    inductive relation \<open>pstep\<close> on \<open>stage \<times> world\<close>.

  \<^bold>\<open>What is proved.\<close>
  \<^item> Unique: NumPy's algorithm equals the contract for every sorting
    permutation (C1), hence for its own argsort; the kept rows are strictly
    sorted and the inverse indexes them.
  \<^item> Dedup: on a mesh satisfying the invariant, deduplication succeeds, the
    new faces satisfy the invariant over the new rows and name the same
    rounded vertices (C2); the rows are distinct fixed points of rounding
    (C3); the printed count is the number removed (C4); out-of-range
    indices raise (C5); no faces stay None (C6); two face entries get the
    same new index exactly when their vertices round to the same row (C7);
    an index in \<open>[-n, 0)\<close> names vertex \<open>n + i\<close> (C8).
  \<^item> Normalizer: centred box with largest extent 1 (C9), the degenerate and
    empty inputs (C10--C12), the NumPy reductions against the spec's
    bounding box (C13).
  \<^item> Loader: errors (C14, C15), the int32 round trip below \<open>2^31\<close>
    vertices (C16); end to end, the int32 wrap makes a face index
    \<open>i \<ge> 2^31\<close> of a mesh with \<open>n < 2^32\<close> vertices name vertex
    \<open>i + n - 2^32\<close> in the archive (C17, in \<open>Pipeline\<close>).
  \<^item> Serializer: round trip with and without pickling (C18, C19), frame
    (C20), the \<open>.npz\<close> suffix (C21).
  \<^item> Pipeline: the state machine refines \<open>preprocess_obj\<close> (C22); no
    partial output on failure (C23); the missing-input scenario and the
    exit status (C24, C25); end-to-end success (C26); the degenerate mesh
    of at most 16 vertices end to end (C27); the only file written is a
    well-formed archive (C28); \<open>-h\<close> exits before anything runs (C32).
  \<^item> Cli: option pairs parse to the last value of each option (C29), the
    attached form round-trips every string (C30), abbreviations (C31),
    \<open>--\<close> is never accepted (C33), \<open>-h\<close> with glued characters prints
    the help (C34).
  \<^item> Across components (this theory): a point cloud runs through the whole
    script, and its archive is unreadable under \<open>np.load\<close>'s defaults (C35).

  \<^bold>\<open>Modelling choices.\<close>  Coordinates are exact reals: the theorems state
  what the code computes in exact arithmetic, and IEEE rounding of the
  subtraction and division is not modelled (the 6-decimal rounding, which
  the code performs explicitly, is).  NaN is not a real: the array a zero
  scale produces is the separate constructor \<open>NaNRows n\<close>; \<open>np.unique\<close> on
  it keeps every NaN row (NaN compares unequal) and its inverse is the
  inverse of the order NumPy's quicksort leaves rows in that compare
  equal: the identity up to 16 rows (insertion sort only, \<open>nan_unique_inverse_small\<close>),
  a fixed shuffle above (e.g. 17 rows).  The quicksort's depth limit,
  after which NumPy switches to heapsort, is never reached on equal keys,
  as each partition halves the interval.  The inverse of \<open>np.unique\<close> is
  one-dimensional (NumPy 2.0.1 and later).  argparse is CPython 3.11.10's;
  its usage and help texts are not reproduced: a usage error is the status
  2 with the world unchanged (the message goes to standard error, which
  the world does not record), the help is the message \<open>HelpText\<close>.  No
  loop of the script is unbounded, so no fuel is needed; NumPy's sorting
  loops are functions with termination proofs.

  \<^bold>\<open>Not modelled.\<close>  trimesh's OBJ parser (an external library; it is the
  parameter \<open>parse\<close>); operating-system write errors of \<open>np.savez\<close> (the
  file system is a total map, so saving cannot fail); the byte layout of
  the archive (the spec does not fix it); standard error; the text of the
  emoji progress messages and of the help
  (each \<open>print\<close> is a \<open>msg\<close> constructor with its arguments).
\<close>

section \<open>Properties across components\<close>

text \<open>
  C35. A point cloud (an object with vertices and no faces) goes through
  the whole script: the run succeeds, and the archive it writes reads back
  as the deduplicated rows with no face data when pickling is allowed, but
  raises ValueError under \<open>np.load\<close>'s default, so a consumer using the
  defaults cannot read the script's output (Loader, Normalizer, Dedup,
  Serializer and the command line together).
\<close>

theorem point_cloud_archive:
  assumes "files w inp = Some f" and "parse inp f = Inr mesh"
    and "obj_vertices mesh = Some vs" and "obj_faces mesh = None"
    and "vs \<noteq> []" and "0 < max_extent vs" and "cli_value inp" and "cli_value out"
  shows "\<exists>w' u. main parse [''--input'', inp, ''--output'', out] w = (w', 0)
     \<and> read_processed True (npz_path out) w' = Inr (Rows u, None)
     \<and> read_processed False (npz_path out) w' =
         Inl (ValueError ''Object arrays cannot be loaded when allow_pickle=False'')"
proof -
  define nv where "nv = map (\<lambda>v. map_tri (\<lambda>x. x / max_extent vs) (zip_tri (-) v (bbox_center vs))) vs"
  define u where "u = sorted_list_of_set (set (np_round 6 nv))"
  define w1 where "w1 = print_msg (Loaded (length vs) 0) (print_msg (Loading inp) w)"
  have load: "load_obj parse inp w = (Inr (vs, None), w1)"
    using assms(1-4) by (simp add: load_obj_def w1_def)
  have norm: "normalize_vertices (Some vs) w1 = (Inr (Rows nv), print_msg Normalized w1)"
    unfolding nv_def using assms(5,6) by (rule normalize_vertices_Rows)
  have dd: "remove_duplicate_vertices (Rows nv) None w2 =
      (Inr (Rows u, None), print_msg (Removed (int (length nv) - int (length u))) w2)" for w2
    by (simp add: remove_duplicate_vertices_Rows take_faces_def u_def)
  let ?w' = "print_msg Completed (save_processed_data (Rows u) None out
               (print_msg (Removed (int (length nv) - int (length u))) (print_msg Normalized w1)))"
  have run: "main parse [''--input'', inp, ''--output'', out] w = (?w', 0)"
    using assms(7,8) by (simp add: main_def parse_args_input_output preprocess_obj_def load norm dd)
  have np: "np_load (npz_path out) ?w' = Inr [(''vertices'', F64Rows (Rows u)), (''faces'', ObjectNone)]"
    by (simp add: np_load_def save_processed_data_files to_npy_faces_def)
  have "read_processed True (npz_path out) ?w' = Inr (Rows u, None)"
    and "read_processed False (npz_path out) ?w' =
           Inl (ValueError ''Object arrays cannot be loaded when allow_pickle=False'')"
    by (simp_all add: read_processed_def np npz_get_def)
  with run show ?thesis
    by blast
qed

theorem point_cloud_archive_witness:
  "\<exists>w' u. main (\<lambda>_ _. Inr \<lparr>obj_vertices = Some [(0, 0, 0), (1, 0, 0)], obj_faces = None\<rparr>)
       [''--input'', ''cloud.ply'', ''--output'', ''cloud.npz'']
       \<lparr>files = [''cloud.ply'' \<mapsto> Blob ''ply''], stdout = []\<rparr> = (w', 0)
     \<and> read_processed True (npz_path ''cloud.npz'') w' = Inr (Rows u, None)
     \<and> read_processed False (npz_path ''cloud.npz'') w' =
         Inl (ValueError ''Object arrays cannot be loaded when allow_pickle=False'')"
proof -
  let ?vs = "[(0, 0, 0), (1, 0, 0)] :: vertex list"
  let ?m = "\<lparr>obj_vertices = Some ?vs, obj_faces = None\<rparr>"
  let ?w = "\<lparr>files = [''cloud.ply'' \<mapsto> Blob ''ply''], stdout = []\<rparr>"
  have h1: "files ?w ''cloud.ply'' = Some (Blob ''ply'')" by simp
  have h2: "(\<lambda>_ _. Inr ?m) ''cloud.ply'' (Blob ''ply'') = (Inr ?m :: py_error + mesh_obj)" by simp
  have h3: "obj_vertices ?m = Some ?vs" by simp
  have h4: "obj_faces ?m = None" by simp
  have h5: "?vs \<noteq> []" by simp
  have h6: "0 < max_extent ?vs"
    by (simp add: max_extent_def extent_def axis_min_def axis_max_def)
  have h7: "cli_value ''cloud.ply''" by (simp add: cli_value_def classify_arg_def)
  have h8: "cli_value ''cloud.npz''" by (simp add: cli_value_def classify_arg_def)
  show ?thesis
    using point_cloud_archive [OF h1 h2 h3 h4 h5 h6 h7 h8] .
qed

end
